theory Spec2Isabelle
  imports Complex_Main "HOL-Library.Char_ord" "HOL-Library.List_Lexorder"
    "HOL-Library.Product_Lexorder"
begin

section \<open>Numbers and errors\<close>

text \<open>
  The library computes on IEEE double-precision numbers, held as plain Python floats
  or as \<open>numpy.float64\<close> values. A finite number is read as the real number it
  denotes. The two kinds differ where it decides a branch: on a zero divisor Python's
  division raises \<open>ZeroDivisionError\<close>, while numpy's yields an infinity or NaN (with
  a warning) and the computation goes on, as numpy's power does on a zero base with a
  negative exponent. Such results are values of their own, \<open>PInf\<close>, \<open>NInf\<close> and
  \<open>NaN\<close>. The rounding of finite results, their overflow and the sign of a zero are
  not modelled: no statement below depends on the exact value of a finite result,
  except where it is evaluated on numbers that doubles compute exactly.
\<close>

datatype py_error =
    ValueError string
  | RuntimeError string
  | ZeroDivisionError
  | IndexError
  | KeyError
  | TypeError
  | AssertionError

datatype fl = Fin real | PInf | NInf | NaN

text \<open>Python's \<open>a / b\<close> on two plain numbers.\<close>

definition truediv :: "real \<Rightarrow> real \<Rightarrow> py_error + real" where
  "truediv a b = (if b = 0 then Inl ZeroDivisionError else Inr (a / b))"

text \<open>numpy's \<open>a / b\<close> on two finite numbers, one of them a \<open>numpy.float64\<close>.\<close>

definition np_divide :: "real \<Rightarrow> real \<Rightarrow> fl" where
  "np_divide a b =
     (if b \<noteq> 0 then Fin (a / b)
      else if 0 < a then PInf
      else if a < 0 then NInf
      else NaN)"

text \<open>
  numpy's \<open>x ** y\<close> on doubles, which is the \<open>pow\<close> of the C library: 1 for a zero
  exponent or a base of 1 whatever the other operand, NaN for a negative base with a
  fractional exponent, and the limits at zero and at the infinities.
\<close>

definition np_power :: "fl \<Rightarrow> fl \<Rightarrow> fl" where
  "np_power x y =
     (if y = Fin 0 then Fin 1
      else if x = Fin 1 then Fin 1
      else
        (case x of
           NaN \<Rightarrow> NaN
         | Fin a \<Rightarrow>
             (case y of
                NaN \<Rightarrow> NaN
              | Fin b \<Rightarrow>
                  if a = 0 then (if b < 0 then PInf else Fin 0)
                  else if 0 < a then Fin (a powr b)
                  else if b = of_int \<lfloor>b\<rfloor> then Fin (a powi \<lfloor>b\<rfloor>)
                  else NaN
              | PInf \<Rightarrow> if \<bar>a\<bar> < 1 then Fin 0 else if 1 < \<bar>a\<bar> then PInf else Fin 1
              | NInf \<Rightarrow> if \<bar>a\<bar> < 1 then PInf else if 1 < \<bar>a\<bar> then Fin 0 else Fin 1)
         | PInf \<Rightarrow>
             (case y of
                NaN \<Rightarrow> NaN
              | Fin b \<Rightarrow> if 0 < b then PInf else Fin 0
              | PInf \<Rightarrow> PInf
              | NInf \<Rightarrow> Fin 0)
         | NInf \<Rightarrow>
             (case y of
                NaN \<Rightarrow> NaN
              | Fin b \<Rightarrow>
                  if 0 < b then (if b = of_int \<lfloor>b\<rfloor> \<and> odd \<lfloor>b\<rfloor> then NInf else PInf)
                  else Fin 0
              | PInf \<Rightarrow> PInf
              | NInf \<Rightarrow> Fin 0)))"

text \<open>numpy's \<open>m * p\<close> for a finite \<open>m\<close>.\<close>

definition np_multiply :: "real \<Rightarrow> fl \<Rightarrow> fl" where
  "np_multiply m p =
     (case p of
        Fin x \<Rightarrow> Fin (m * x)
      | PInf \<Rightarrow> if 0 < m then PInf else if m < 0 then NInf else NaN
      | NInf \<Rightarrow> if 0 < m then NInf else if m < 0 then PInf else NaN
      | NaN \<Rightarrow> NaN)"

text \<open>Indexing \<open>xs[0]\<close> and \<open>xs[-1]\<close>: an empty sequence raises.\<close>

definition first_item :: "'a list \<Rightarrow> py_error + 'a" where
  "first_item xs = (case xs of [] \<Rightarrow> Inl IndexError | x # _ \<Rightarrow> Inr x)"

definition last_item :: "'a list \<Rightarrow> py_error + 'a" where
  "last_item xs = (if xs = [] then Inl IndexError else Inr (last xs))"

section \<open>The fitted curve\<close>

text \<open>
  The attributes of a \<open>HillCurve\<close> object. The field \<open>top\<close> of the source is
  \<open>top_val\<close> here. The data are finite: \<open>curve_fit\<close> refuses arrays that hold an
  infinity or NaN.
\<close>

record HillCurve =
  cs :: "real list"
  fs :: "real list"
  fs_stderr :: "real list option"
  bottom :: real
  top_val :: real
  midpoint :: real
  slope :: real

text \<open>
  The constructed object. Its midpoint and slope are always fitted, hence
  \<open>numpy.float64\<close> values. Its bottom and its top are either fitted too, or the plain
  Python numbers given as \<open>fixbottom\<close> and \<open>fixtop\<close>: \<open>plain_bottom\<close> and
  \<open>plain_top\<close> record which.
\<close>

record FittedHillCurve = HillCurve +
  plain_bottom :: bool
  plain_top :: bool

subsection \<open>\<open>HillCurve.ic50\<close>\<close>

text \<open>
  The expression
  \<open>self.midpoint * ((self.top - 0.5) / (0.5 - self.bottom))**(1.0 / self.slope)\<close>.
  The first division is Python's when top and bottom are both plain numbers and numpy's
  otherwise; the slope and the midpoint being \<open>numpy.float64\<close> values, the second
  division, the power and the product are numpy's.
\<close>

definition ic50_formula :: "FittedHillCurve \<Rightarrow> py_error + fl" where
  "ic50_formula self =
     (case (if plain_top self \<and> plain_bottom self
            then map_sum id Fin (truediv (top_val self - 0.5) (0.5 - bottom self))
            else Inr (np_divide (top_val self - 0.5) (0.5 - bottom self))) of
        Inl e \<Rightarrow> Inl e
      | Inr ratio \<Rightarrow>
          Inr (np_multiply (midpoint self) (np_power ratio (np_divide 1.0 (slope self)))))"

text \<open>
  The first \<open>if\<close>/\<open>elif\<close>/\<open>else\<close> of \<open>ic50\<close>: it either returns the interpolated
  value at once (\<open>Inl\<close>) or leaves a tag in the local variable \<open>bound\<close> (\<open>Inr\<close>).
  An infinite or NaN value of the expression fails the test
  \<open>self.cs[0] <= ic50 <= self.cs[-1]\<close>; of these only minus infinity passes the test
  \<open>ic50 < self.cs[0]\<close>.
\<close>

definition ic50_classify :: "FittedHillCurve \<Rightarrow> py_error + (real + string)" where
  "ic50_classify self =
     (if top_val self < 0.5 \<and> bottom self < 0.5 then Inr (Inr ''bottom'')
      else if top_val self \<ge> 0.5 \<and> bottom self \<ge> 0.5 then Inr (Inr ''upper'')
      else
        (case ic50_formula self of
           Inl e \<Rightarrow> Inl e
         | Inr v \<Rightarrow>
             (case first_item (cs self) of
                Inl e \<Rightarrow> Inl e
              | Inr lo \<Rightarrow>
                  (case v of
                     Fin x \<Rightarrow>
                       if lo \<le> x \<and> x \<le> last (cs self) then Inr (Inl x)
                       else if x < lo then Inr (Inr ''bottom'')
                       else Inr (Inr ''upper'')
                   | NInf \<Rightarrow> Inr (Inr ''bottom'')
                   | PInf \<Rightarrow> Inr (Inr ''upper'')
                   | NaN \<Rightarrow> Inr (Inr ''upper'')))))"

text \<open>The second \<open>if\<close> of \<open>ic50\<close>, reached only when no value was returned above.\<close>

definition ic50_dispatch :: "FittedHillCurve \<Rightarrow> string \<Rightarrow> string \<Rightarrow> py_error + real option" where
  "ic50_dispatch self method bound =
     (if method = ''bound'' then
        (if bound = ''upper'' then map_sum id Some (last_item (cs self))
         else if bound = ''lower'' then map_sum id Some (first_item (cs self))
         else Inl (ValueError (''invalid `bound` '' @ bound)))
      else if method \<noteq> ''interpolate'' then
        Inl (ValueError (''invalid `method` of '' @ method))
      else Inr None)"

definition ic50 :: "FittedHillCurve \<Rightarrow> string \<Rightarrow> py_error + real option" where
  "ic50 self method =
     (case ic50_classify self of
        Inl e \<Rightarrow> Inl e
      | Inr (Inl v) \<Rightarrow> Inr (Some v)
      | Inr (Inr bound) \<Rightarrow> ic50_dispatch self method bound)"

subsection \<open>\<open>HillCurve.ic50_bound\<close>\<close>

definition ic50_bound :: "FittedHillCurve \<Rightarrow> py_error + string" where
  "ic50_bound self =
     (case ic50 self ''interpolate'' of
        Inl e \<Rightarrow> Inl e
      | Inr (Some _) \<Rightarrow> Inr ''interpolated''
      | Inr None \<Rightarrow>
          (case ic50 self ''bound'' of
             Inl e \<Rightarrow> Inl e
           | Inr r \<Rightarrow>
               (case first_item (cs self) of
                  Inl e \<Rightarrow> Inl e
                | Inr lo \<Rightarrow>
                    if r = Some lo then Inr ''lower''
                    else if r = Some (last (cs self)) then Inr ''upper''
                    else Inl (RuntimeError ''ic50 is not upper or lower bound''))))"

definition straddles_half :: "FittedHillCurve \<Rightarrow> bool" where
  "straddles_half self =
     (\<not> (top_val self < 0.5 \<and> bottom self < 0.5) \<and> \<not> (top_val self \<ge> 0.5 \<and> bottom self \<ge> 0.5))"

definition in_measured_range :: "FittedHillCurve \<Rightarrow> real \<Rightarrow> bool" where
  "in_measured_range self v = (hd (cs self) \<le> v \<and> v \<le> last (cs self))"

subsection \<open>Sample curves\<close>

text \<open>
  Curves as a fit of noiseless data with both baselines fixed recovers them: three with
  top 1 and bottom 0, for which the IC50 is the midpoint and lies below, inside and
  above the measured concentrations, one with top and bottom both below one half, and
  one with the top fixed to 2/5 and the bottom fixed to 1/2.
\<close>

definition curve_below :: FittedHillCurve where
  "curve_below = \<lparr>cs = [1, 2, 4], fs = [1/3, 1/5, 1/9], fs_stderr = None,
     bottom = 0, top_val = 1, midpoint = 1/2, slope = 1,
     plain_bottom = True, plain_top = True\<rparr>"

definition curve_inside :: FittedHillCurve where
  "curve_inside = \<lparr>cs = [1, 2, 4], fs = [2/3, 1/2, 1/3], fs_stderr = None,
     bottom = 0, top_val = 1, midpoint = 2, slope = 1,
     plain_bottom = True, plain_top = True\<rparr>"

definition curve_above :: FittedHillCurve where
  "curve_above = \<lparr>cs = [1, 2, 4], fs = [8/9, 4/5, 2/3], fs_stderr = None,
     bottom = 0, top_val = 1, midpoint = 8, slope = 1,
     plain_bottom = True, plain_top = True\<rparr>"

definition curve_low :: FittedHillCurve where
  "curve_low = \<lparr>cs = [1, 2, 4], fs = [3/10, 1/4, 1/5], fs_stderr = None,
     bottom = 1/10, top_val = 2/5, midpoint = 2, slope = 1,
     plain_bottom = True, plain_top = True\<rparr>"

definition curve_half :: FittedHillCurve where
  "curve_half = \<lparr>cs = [1, 2, 4], fs = [13/30, 9/20, 7/15], fs_stderr = None,
     bottom = 1/2, top_val = 2/5, midpoint = 2, slope = 1,
     plain_bottom = True, plain_top = True\<rparr>"

text \<open>
  Curves with a fitted bottom, on which numpy's arithmetic leaves the finite numbers:
  a top of exactly one half with a negative slope, and a slope of zero.
\<close>

definition curve_zero_base :: FittedHillCurve where
  "curve_zero_base = \<lparr>cs = [1, 2, 4], fs = [1/6, 1/4, 1/3], fs_stderr = None,
     bottom = 0, top_val = 1/2, midpoint = 2, slope = - 1,
     plain_bottom = False, plain_top = True\<rparr>"

definition curve_zero_slope :: FittedHillCurve where
  "curve_zero_slope = \<lparr>cs = [1, 2, 4], fs = [3/5, 3/5, 3/5], fs_stderr = None,
     bottom = 1/5, top_val = 1, midpoint = 2, slope = 0,
     plain_bottom = False, plain_top = True\<rparr>"

section \<open>\<open>concentrationRange\<close>\<close>

text \<open>
  Python's comparisons \<open>a <= b\<close> and \<open>a < b\<close> of two floats: false whenever one of
  them is NaN.
\<close>

fun fl_le :: "fl \<Rightarrow> fl \<Rightarrow> bool" where
  "fl_le NaN y = False"
| "fl_le x NaN = False"
| "fl_le NInf y = True"
| "fl_le x PInf = True"
| "fl_le (Fin a) (Fin b) = (a \<le> b)"
| "fl_le x y = False"

fun fl_less :: "fl \<Rightarrow> fl \<Rightarrow> bool" where
  "fl_less NaN y = False"
| "fl_less x NaN = False"
| "fl_less (Fin a) (Fin b) = (a < b)"
| "fl_less NInf NInf = False"
| "fl_less NInf y = True"
| "fl_less PInf y = False"
| "fl_less (Fin a) PInf = True"
| "fl_less (Fin a) NInf = False"

text \<open>
  \<open>concentrationRange\<close> rests on \<open>math.log10\<close>, on the float operations \<open>-\<close>, \<open>+\<close>,
  \<open>*\<close> and \<open>/\<close>, and on numpy's \<open>10.0 ** y\<close>. What each of them returns, rounding,
  overflow and NaN included, is a parameter of the embedding: nothing is assumed of
  the operations, so that nothing proved depends on identities that hold of the real
  numbers only, such as \<open>10 ** log10(x) = x\<close>. On the arguments it gets here
  (positive numbers, an infinity or NaN) \<open>math.log10\<close> does not raise, and no divisor
  is zero. None of the operations tells the two zeros apart other than by the sign of
  a zero result, so \<open>Fin 0\<close> stands for both.
\<close>

record float_ops =
  op_log10 :: "fl \<Rightarrow> fl"
  op_sub :: "fl \<Rightarrow> fl \<Rightarrow> fl"
  op_add :: "fl \<Rightarrow> fl \<Rightarrow> fl"
  op_mul :: "fl \<Rightarrow> fl \<Rightarrow> fl"
  op_div :: "fl \<Rightarrow> fl \<Rightarrow> fl"
  op_pow10 :: "fl \<Rightarrow> fl"

text \<open>\<open>str(n)\<close> for an integer, as the error message of \<open>numpy.linspace\<close> prints it.\<close>

fun str_nat :: "nat \<Rightarrow> string" where
  "str_nat n =
     (if n < 10 then [char_of (48 + n)] else str_nat (n div 10) @ [char_of (48 + n mod 10)])"

definition str_int :: "int \<Rightarrow> string" where
  "str_int i = (if i < 0 then ''-'' @ str_nat (nat (- i)) else str_nat (nat i))"

text \<open>
  \<open>numpy.linspace(start, stop, num)\<close> with its default arguments, as the library
  computes it: a negative \<open>num\<close> is refused; \<open>div = num - 1\<close> (\<open>divisor\<close> here), \<open>delta = stop - start\<close>
  and \<open>y = arange(0, num)\<close>; for \<open>div > 0\<close> the step is \<open>delta / div\<close> and \<open>y\<close>
  becomes \<open>y * step\<close>, or \<open>(y / div) * delta\<close> when the step is zero; otherwise \<open>y\<close>
  becomes \<open>y * delta\<close>; then \<open>start\<close> is added and, for \<open>num > 1\<close>, the last entry is
  overwritten with \<open>stop\<close>. \<open>numpy.logspace(start, stop, num)\<close> is
  \<open>10.0 ** linspace(start, stop, num)\<close>.
\<close>

definition linspace_step :: "float_ops \<Rightarrow> fl \<Rightarrow> fl \<Rightarrow> int \<Rightarrow> fl" where
  "linspace_step ops start stop num =
     op_div ops (op_sub ops stop start) (Fin (real_of_int (num - 1)))"

definition linspace :: "float_ops \<Rightarrow> fl \<Rightarrow> fl \<Rightarrow> int \<Rightarrow> py_error + fl list" where
  "linspace ops start stop num =
     (if num < 0 then
        Inl (ValueError (''Number of samples, '' @ str_int num @ '', must be non-negative.''))
      else
        (let divisor = num - 1;
             delta = op_sub ops stop start;
             y0 = map (\<lambda>i. Fin (real i)) [0..<nat num];
             y1 = (if divisor > 0 then
                     (let step = op_div ops delta (Fin (real_of_int divisor)) in
                      if step = Fin 0 then
                        map (\<lambda>v. op_mul ops (op_div ops v (Fin (real_of_int divisor))) delta) y0
                      else map (\<lambda>v. op_mul ops v step) y0)
                   else map (\<lambda>v. op_mul ops v delta) y0);
             y2 = map (\<lambda>v. op_add ops v start) y1
         in Inr (if num > 1 then y2[nat num - 1 := stop] else y2)))"

definition logspace :: "float_ops \<Rightarrow> fl \<Rightarrow> fl \<Rightarrow> int \<Rightarrow> py_error + fl list" where
  "logspace ops start stop num = map_sum id (map (op_pow10 ops)) (linspace ops start stop num)"

text \<open>
  The arguments \<open>bottom\<close>, \<open>top\<close> and \<open>extend\<close> of the source are \<open>lo\<close>, \<open>hi\<close> and
  \<open>extend_by\<close> here. The local variables \<open>logrange\<close> and, after their reassignment,
  \<open>bottom\<close> and \<open>top\<close> are \<open>log_range\<close>, \<open>lower_exponent\<close> and \<open>upper_exponent\<close>.
\<close>

definition log_range :: "float_ops \<Rightarrow> fl \<Rightarrow> fl \<Rightarrow> fl" where
  "log_range ops lo hi = op_sub ops (op_log10 ops hi) (op_log10 ops lo)"

definition lower_exponent :: "float_ops \<Rightarrow> fl \<Rightarrow> fl \<Rightarrow> fl \<Rightarrow> fl" where
  "lower_exponent ops lo hi extend_by =
     op_sub ops (op_log10 ops lo) (op_mul ops (log_range ops lo hi) extend_by)"

definition upper_exponent :: "float_ops \<Rightarrow> fl \<Rightarrow> fl \<Rightarrow> fl \<Rightarrow> fl" where
  "upper_exponent ops lo hi extend_by =
     op_add ops (op_log10 ops hi) (op_mul ops (log_range ops lo hi) extend_by)"

definition concentrationRange ::
  "float_ops \<Rightarrow> fl \<Rightarrow> fl \<Rightarrow> int \<Rightarrow> fl \<Rightarrow> py_error + fl list" where
  "concentrationRange ops lo hi npoints extend_by =
     (if fl_le hi lo then Inl (ValueError ''`bottom` must be less than `top`'')
      else if fl_le lo (Fin 0) then Inl (ValueError ''`bottom` must be greater than zero'')
      else if fl_less extend_by (Fin 0) then Inl (ValueError ''`extend` must be >= 0'')
      else if \<not> fl_less (Fin 0) (log_range ops lo hi) then Inl AssertionError
      else logspace ops (lower_exponent ops lo hi extend_by)
             (upper_exponent ops lo hi extend_by) npoints)"

text \<open>
  Two instances of the operations, to evaluate the function on. \<open>exact_ops\<close> are the
  operations without rounding on finite numbers; they are used only where doubles
  compute the same. \<open>nearest_log_ops\<close> differ in the logarithm, which is rounded to
  the nearest multiple of \<open>2 ** -49\<close>: these are the doubles from 8 up to 16.
\<close>

definition fin1 :: "(real \<Rightarrow> real) \<Rightarrow> fl \<Rightarrow> fl" where
  "fin1 f x = (case x of Fin a \<Rightarrow> Fin (f a) | _ \<Rightarrow> NaN)"

definition fin2 :: "(real \<Rightarrow> real \<Rightarrow> real) \<Rightarrow> fl \<Rightarrow> fl \<Rightarrow> fl" where
  "fin2 f x y = (case x of Fin a \<Rightarrow> (case y of Fin b \<Rightarrow> Fin (f a b) | _ \<Rightarrow> NaN) | _ \<Rightarrow> NaN)"

definition exact_ops :: float_ops where
  "exact_ops = \<lparr>op_log10 = fin1 (log 10), op_sub = fin2 (\<lambda>a b. a - b),
     op_add = fin2 (\<lambda>a b. a + b), op_mul = fin2 (\<lambda>a b. a * b),
     op_div = fin2 (\<lambda>a b. a / b), op_pow10 = fin1 (\<lambda>y. 10 powr y)\<rparr>"




section \<open>\<open>HillCurve.__init__\<close>\<close>

text \<open>
  The arguments \<open>fixbottom\<close> and \<open>fixtop\<close> are \<open>False\<close>, a number, or anything else.
  \<open>True\<close> is not \<open>False\<close> and is an instance of \<open>int\<close>, so it counts as the number 1.
  \<open>Number\<close> is a plain Python \<open>int\<close> or \<open>float\<close>; \<open>Float64\<close> is a \<open>numpy.float64\<close>,
  which is an instance of \<open>float\<close> too and is stored as it is. The numbers are finite.
\<close>

datatype fixarg = PyFalse | PyTrue | Number real | Float64 real | NotNumber

definition is_plain :: "fixarg \<Rightarrow> bool" where
  "is_plain a = (case a of PyTrue \<Rightarrow> True | Number v \<Rightarrow> True | _ \<Rightarrow> False)"

text \<open>
  \<open>a.argsort()\<close> and the indexing \<open>b[a.argsort()]\<close> of one array by the sorting
  permutation of another, which raises when an index is out of range.
\<close>

definition argsort :: "real list \<Rightarrow> nat list" where
  "argsort xs = map snd (sort_key fst (zip xs [0..<length xs]))"

definition take_at :: "'a list \<Rightarrow> nat list \<Rightarrow> py_error + 'a list" where
  "take_at ys idx =
     (if \<forall>i \<in> set idx. i < length ys then Inr (map (\<lambda>i. ys ! i) idx) else Inl IndexError)"

text \<open>\<open>argmax\<close> of a Boolean array: the first index holding \<open>True\<close>, 0 when none does.\<close>

fun first_true :: "bool list \<Rightarrow> nat" where
  "first_true [] = 0"
| "first_true (b # bs) = (if b then 0 else Suc (first_true bs))"

definition argmax_bool :: "bool list \<Rightarrow> nat" where
  "argmax_bool bs = (if True \<in> set bs then first_true bs else 0)"

text \<open>
  The array \<open>above[:-1] != above[1:]\<close>: where adjacent entries of a Boolean array
  differ.
\<close>

definition changes :: "bool list \<Rightarrow> bool list" where
  "changes bs = map2 (\<lambda>a b. a \<noteq> b) (butlast bs) (tl bs)"

text \<open>The initial guesses, in the order the constructor makes them.\<close>

definition guess_slope :: "real list \<Rightarrow> real" where
  "guess_slope fs_sorted = (if hd fs_sorted \<ge> last fs_sorted then 1.5 else - 1.5)"

definition guess_top :: "fixarg \<Rightarrow> real \<Rightarrow> real list \<Rightarrow> py_error + real" where
  "guess_top fixtop slope0 fs_sorted =
     (case fixtop of
        PyFalse \<Rightarrow> Inr (if slope0 > 0 then Max (set fs_sorted) else Min (set fs_sorted))
      | PyTrue \<Rightarrow> Inr 1
      | Number v \<Rightarrow> Inr v
      | Float64 v \<Rightarrow> Inr v
      | NotNumber \<Rightarrow> Inl (ValueError ''`fixtop` is not `False` or a number''))"

definition guess_bottom :: "fixarg \<Rightarrow> real \<Rightarrow> real list \<Rightarrow> py_error + real" where
  "guess_bottom fixbottom slope0 fs_sorted =
     (case fixbottom of
        PyFalse \<Rightarrow> Inr (if slope0 > 0 then Min (set fs_sorted) else Max (set fs_sorted))
      | PyTrue \<Rightarrow> Inr 1
      | Number v \<Rightarrow> Inr v
      | Float64 v \<Rightarrow> Inr v
      | NotNumber \<Rightarrow> Inl (ValueError ''`fixbottom` is not `False` or a number''))"

definition guess_midpoint ::
  "real list \<Rightarrow> real list \<Rightarrow> real \<Rightarrow> real \<Rightarrow> real \<Rightarrow> py_error + real" where
  "guess_midpoint cs_sorted fs_sorted slope0 top0 bottom0 =
     (let midval = (top0 - bottom0) / 2.0 in
      if list_all (\<lambda>f. f > midval) fs_sorted then
        Inr (if slope0 > 0 then last cs_sorted else hd cs_sorted)
      else if list_all (\<lambda>f. f \<le> midval) fs_sorted then
        Inr (if slope0 > 0 then hd cs_sorted else last cs_sorted)
      else
        (let above = map (\<lambda>f. f > midval) fs_sorted;
             i = argmax_bool (changes above)
         in if \<not> (above ! i \<noteq> above ! (i + 1)) then Inl AssertionError
            else Inr ((cs_sorted ! i + cs_sorted ! (i + 1)) / 2.0)))"

text \<open>
  What \<open>scipy.optimize.curve_fit\<close> is called with. The model function \<open>func\<close> is fixed
  by the fitting space, the names of the free parameters and the values of
  \<open>self.bottom\<close> and \<open>self.top\<close> it closes over. The optimiser itself is a parameter
  of the embedding: it returns the fitted values of the free parameters, or fails.
\<close>

record fit_problem =
  fp_fitlogc :: bool
  fp_func_vars :: "string list"
  fp_bottom :: real
  fp_top :: real
  fp_xdata :: "real list"
  fp_ydata :: "real list"
  fp_p0 :: "real list"
  fp_sigma :: "real list option"

type_synonym optimizer = "fit_problem \<Rightarrow> py_error + real list"

definition getattr_curve :: "HillCurve \<Rightarrow> string \<Rightarrow> real" where
  "getattr_curve self name =
     (if name = ''midpoint'' then midpoint self
      else if name = ''slope'' then slope self
      else if name = ''bottom'' then bottom self
      else top_val self)"

definition setattr_curve :: "string \<times> real \<Rightarrow> HillCurve \<Rightarrow> HillCurve" where
  "setattr_curve nv self =
     (if fst nv = ''midpoint'' then self\<lparr>midpoint := snd nv\<rparr>
      else if fst nv = ''slope'' then self\<lparr>slope := snd nv\<rparr>
      else if fst nv = ''bottom'' then self\<lparr>bottom := snd nv\<rparr>
      else self\<lparr>top_val := snd nv\<rparr>)"

definition func_vars_of :: "fixarg \<Rightarrow> fixarg \<Rightarrow> string list" where
  "func_vars_of fixbottom fixtop =
     (if fixtop = PyFalse \<and> fixbottom = PyFalse then
        [''midpoint'', ''slope'', ''bottom'', ''top'']
      else if fixtop = PyFalse then [''midpoint'', ''slope'', ''top'']
      else if fixbottom = PyFalse then [''midpoint'', ''slope'', ''bottom'']
      else [''midpoint'', ''slope''])"

text \<open>
  The constructor up to the call of the optimiser: the object holding the sorted data
  and the four guesses.
\<close>

definition HillCurve_guess ::
  "real list \<Rightarrow> real list \<Rightarrow> real list option \<Rightarrow> fixarg \<Rightarrow> fixarg \<Rightarrow> py_error + HillCurve" where
  "HillCurve_guess cs_in fs_in stderr_in fixbottom fixtop =
     (let order = argsort cs_in in
      case (case stderr_in of
              None \<Rightarrow> Inr None
            | Some se \<Rightarrow> map_sum id Some (take_at se order)) of
        Inl e \<Rightarrow> Inl e
      | Inr se_sorted \<Rightarrow>
      (case take_at fs_in order of
        Inl e \<Rightarrow> Inl e
      | Inr fs_sorted \<Rightarrow>
      (let cs_sorted = map (\<lambda>i. cs_in ! i) order in
       if \<exists>c \<in> set cs_sorted. c \<le> 0 then
         Inl (ValueError ''concentrations in `cs` must all be > 0'')
       else if fs_sorted = [] then Inl IndexError
       else
         (let slope0 = guess_slope fs_sorted in
          case guess_top fixtop slope0 fs_sorted of
            Inl e \<Rightarrow> Inl e
          | Inr top0 \<Rightarrow>
          (case guess_bottom fixbottom slope0 fs_sorted of
            Inl e \<Rightarrow> Inl e
          | Inr bottom0 \<Rightarrow>
          (case guess_midpoint cs_sorted fs_sorted slope0 top0 bottom0 of
            Inl e \<Rightarrow> Inl e
          | Inr midpoint0 \<Rightarrow>
              Inr \<lparr>cs = cs_sorted, fs = fs_sorted, fs_stderr = se_sorted,
                   bottom = bottom0, top_val = top0, midpoint = midpoint0,
                   slope = slope0\<rparr>))))))"

text \<open>
  The constructor: the fit replaces the guesses of the free parameters. A baseline is
  a plain number in the constructed object when it was fixed to a plain number.
\<close>

definition HillCurve_init ::
  "optimizer \<Rightarrow> real list \<Rightarrow> real list \<Rightarrow> real list option \<Rightarrow> fixarg \<Rightarrow> fixarg \<Rightarrow> bool
     \<Rightarrow> py_error + FittedHillCurve" where
  "HillCurve_init curve_fit cs_in fs_in stderr_in fixbottom fixtop fitlogc =
     (case HillCurve_guess cs_in fs_in stderr_in fixbottom fixtop of
        Inl e \<Rightarrow> Inl e
      | Inr self \<Rightarrow>
          (let xdata = (if fitlogc then map ln (cs self) else cs self);
               func_vars = func_vars_of fixbottom fixtop;
               initguess = map (getattr_curve self) func_vars
           in case curve_fit \<lparr>fp_fitlogc = fitlogc, fp_func_vars = func_vars,
                     fp_bottom = bottom self, fp_top = top_val self,
                     fp_xdata = xdata, fp_ydata = fs self, fp_p0 = initguess,
                     fp_sigma = fs_stderr self\<rparr> of
                Inl e \<Rightarrow> Inl e
              | Inr popt \<Rightarrow>
                  if length popt < length func_vars then Inl IndexError
                  else
                    (let fit = fold setattr_curve (zip func_vars popt) self in
                     Inr \<lparr>cs = cs fit, fs = fs fit, fs_stderr = fs_stderr fit,
                          bottom = bottom fit, top_val = top_val fit,
                          midpoint = midpoint fit, slope = slope fit,
                          plain_bottom = is_plain fixbottom,
                          plain_top = is_plain fixtop\<rparr>)))"

text \<open>
  The midpoint guess as the specification words it: \<open>midvalue\<close> is the value halfway
  between the guessed top and the guessed bottom; a crossing gives the mean of the two
  bracketing concentrations, no crossing gives an endpoint chosen by the slope guess.
\<close>

definition spec_midvalue :: "real \<Rightarrow> real \<Rightarrow> real" where
  "spec_midvalue top0 bottom0 = (top0 + bottom0) / 2"

definition spec_guess_midpoint ::
  "real list \<Rightarrow> real list \<Rightarrow> real \<Rightarrow> real \<Rightarrow> real \<Rightarrow> real" where
  "spec_guess_midpoint cs_sorted fs_sorted slope0 top0 bottom0 =
     (let midvalue = spec_midvalue top0 bottom0;
          above = map (\<lambda>f. f > midvalue) fs_sorted
      in if list_all (\<lambda>f. f > midvalue) fs_sorted then
           (if slope0 > 0 then last cs_sorted else hd cs_sorted)
         else if list_all (\<lambda>f. f \<le> midvalue) fs_sorted then
           (if slope0 > 0 then hd cs_sorted else last cs_sorted)
         else
           (let i = first_true (changes above)
            in (cs_sorted ! i + cs_sorted ! (i + 1)) / 2))"

section \<open>\<open>HillCurve.ic50_str\<close>\<close>

text \<open>
  The formatting of a float to a number of significant digits
  (\<open>"{:.3g}".format(x)\<close>) is a parameter \<open>fmt\<close> of the embedding.
\<close>

definition ic50_prefix :: "string \<Rightarrow> string option" where
  "ic50_prefix b =
     (if b = ''interpolated'' then Some ''''
      else if b = ''lower'' then Some ''<''
      else if b = ''upper'' then Some ''>''
      else None)"

definition ic50_str :: "(nat \<Rightarrow> real \<Rightarrow> string) \<Rightarrow> FittedHillCurve \<Rightarrow> nat \<Rightarrow> py_error + string" where
  "ic50_str fmt self precision =
     (case ic50 self ''bound'' of
        Inl e \<Rightarrow> Inl e
      | Inr None \<Rightarrow> Inl TypeError
      | Inr (Some v) \<Rightarrow>
          (case ic50_bound self of
             Inl e \<Rightarrow> Inl e
           | Inr b \<Rightarrow>
               (case ic50_prefix b of
                  None \<Rightarrow> Inl KeyError
                | Some p \<Rightarrow> Inr (p @ fmt precision v))))"

section \<open>\<open>CurveFits\<close>\<close>

subsection \<open>The data\<close>

text \<open>
  A row of \<open>data[cols]\<close>: the values of the five columns that play a role, the
  replicate already a string. A row of \<open>self.df\<close> has, in addition, the columns
  \<open>stderr\<close> and \<open>count\<close> that the concatenation with the averages brings in; a
  missing value (NaN) is \<open>None\<close>.
\<close>

record row =
  r_serum :: string
  r_virus :: string
  r_replicate :: string
  r_conc :: real
  r_fracinf :: real

record df_row = row +
  r_stderr :: "real option"
  r_count :: "nat option"

record CurveFits_args =
  conc_col :: string
  fracinf_col :: string
  serum_col :: string
  virus_col :: string
  replicate_col :: string
  fixbottom :: fixarg
  fixtop :: fixarg

text \<open>
  The object: its arguments, the data with the averages, the three indices, the cache
  \<open>_hillcurves\<close> and the cache \<open>_fitparams\<close>. A cached curve is an object: the cache
  holds a reference into \<open>heap\<close>, the list of the curves constructed so far.
\<close>

record param_row =
  p_serum :: string
  p_virus :: string
  p_replicate :: string
  p_nreplicates :: "nat option"
  p_ic50 :: "real option"
  p_ic50_bound :: string
  p_ic50_str :: string
  p_midpoint :: real
  p_slope :: real
  p_top :: real
  p_bottom :: real

record CurveFits = CurveFits_args +
  df :: "df_row list"
  sera :: "string list"
  viruses :: "string \<rightharpoonup> string list"
  replicates :: "string \<times> string \<rightharpoonup> string list"
  hillcurves :: "string \<times> string \<times> string \<rightharpoonup> nat"
  heap :: "FittedHillCurve list"
  fitparams :: "param_row list option"

subsection \<open>\<open>CurveFits.__init__\<close>\<close>

text \<open>\<open>Series.unique()\<close>: the distinct values in order of first appearance.\<close>

fun unique :: "'a list \<Rightarrow> 'a list" where
  "unique [] = []"
| "unique (x # xs) = x # unique (filter (\<lambda>y. y \<noteq> x) xs)"

text \<open>
  The sorted concentrations of one replicate:
  \<open>virus_data.query("replicate == @rep")[conc_col].sort_values().tolist()\<close>.
\<close>

definition rep_concs :: "string \<Rightarrow> row list \<Rightarrow> real list" where
  "rep_concs rep virus_data =
     sort (map r_conc (filter (\<lambda>r. r_replicate r = rep) virus_data))"

text \<open>
  The inner loop \<open>for rep2 in virus_reps[i + 1:]\<close>. As in the source, \<open>conc2\<close> is
  queried with \<open>rep1\<close>.
\<close>

fun check_rep2 ::
  "string \<Rightarrow> string \<Rightarrow> row list \<Rightarrow> string \<Rightarrow> real list \<Rightarrow> string list \<Rightarrow> py_error + unit" where
  "check_rep2 serum virus virus_data rep1 conc1 [] = Inr ()"
| "check_rep2 serum virus virus_data rep1 conc1 (rep2 # rest) =
     (let conc2 = rep_concs rep1 virus_data in
      if conc1 \<noteq> conc2 then
        Inl (ValueError (''replicates '' @ rep1 @ '' and '' @ rep2 @
               '' have different concentrations for '' @ serum @ '', '' @ virus))
      else check_rep2 serum virus virus_data rep1 conc1 rest)"

text \<open>
  The loop \<open>for i, rep1 in enumerate(virus_reps)\<close>; the list after \<open>rep1\<close> is
  \<open>virus_reps[i + 1:]\<close>.
\<close>

fun check_rep1 :: "string \<Rightarrow> string \<Rightarrow> row list \<Rightarrow> string list \<Rightarrow> py_error + unit" where
  "check_rep1 serum virus virus_data [] = Inr ()"
| "check_rep1 serum virus virus_data (rep1 # rest) =
     (let conc1 = rep_concs rep1 virus_data in
      if length conc1 \<noteq> card (set conc1) then
        Inl (ValueError (''duplicate concentrations for '' @ serum @ '', '' @ virus @
               '', '' @ rep1))
      else
        (case check_rep2 serum virus virus_data rep1 conc1 rest of
           Inl e \<Rightarrow> Inl e
         | Inr _ \<Rightarrow> check_rep1 serum virus virus_data rest))"

definition virus_data_of :: "string \<Rightarrow> row list \<Rightarrow> row list" where
  "virus_data_of virus serum_data = filter (\<lambda>r. r_virus r = virus) serum_data"

definition serum_data_of :: "string \<Rightarrow> row list \<Rightarrow> row list" where
  "serum_data_of serum rows = filter (\<lambda>r. r_serum r = serum) rows"

text \<open>The loop \<open>for virus in serum_viruses\<close>, filling \<open>self.replicates\<close>.\<close>

fun virus_loop ::
  "string \<Rightarrow> row list \<Rightarrow> string list \<Rightarrow> (string \<times> string \<rightharpoonup> string list)
     \<Rightarrow> py_error + (string \<times> string \<rightharpoonup> string list)" where
  "virus_loop serum serum_data [] reps = Inr reps"
| "virus_loop serum serum_data (virus # rest) reps =
     (let virus_data = virus_data_of virus serum_data;
          virus_reps = unique (map r_replicate virus_data)
      in if ''average'' \<in> set virus_reps then
           Inl (ValueError (''A replicate is named '' @ [CHR 0x22] @ ''average'' @ [CHR 0x22] @
                  ''. This is not allowed as that name is used for replicate averages.''))
         else
           (case check_rep1 serum virus virus_data virus_reps of
              Inl e \<Rightarrow> Inl e
            | Inr _ \<Rightarrow>
                virus_loop serum serum_data rest
                  (reps((serum, virus) \<mapsto> virus_reps @ [''average'']))))"

text \<open>The loop \<open>for serum in self.sera\<close>, filling \<open>self.viruses\<close>.\<close>

fun serum_loop ::
  "row list \<Rightarrow> string list \<Rightarrow> (string \<rightharpoonup> string list) \<Rightarrow> (string \<times> string \<rightharpoonup> string list)
     \<Rightarrow> py_error + (string \<rightharpoonup> string list) \<times> (string \<times> string \<rightharpoonup> string list)" where
  "serum_loop rows [] vs reps = Inr (vs, reps)"
| "serum_loop rows (serum # rest) vs reps =
     (let serum_data = serum_data_of serum rows;
          serum_viruses = unique (map r_virus serum_data)
      in case virus_loop serum serum_data serum_viruses reps of
           Inl e \<Rightarrow> Inl e
         | Inr reps' \<Rightarrow> serum_loop rows rest (vs(serum \<mapsto> serum_viruses)) reps')"

text \<open>
  The aggregation \<open>groupby([serum, virus, conc])[fracinf].aggregate(['mean', 'sem',
  'count'])\<close>: one row per group, the groups in sorted order of their keys; \<open>sem\<close>, the
  sample standard error of the mean, is NaN for a group of one.
\<close>

definition mean :: "real list \<Rightarrow> real" where
  "mean xs = sum_list xs / real (length xs)"

definition sem :: "real list \<Rightarrow> real option" where
  "sem xs =
     (if length xs < 2 then None
      else Some (sqrt (sum_list (map (\<lambda>x. (x - mean xs)\<^sup>2) xs) / real (length xs - 1))
                 / sqrt (real (length xs))))"

definition group_keys :: "row list \<Rightarrow> (string \<times> string \<times> real) list" where
  "group_keys rows = sort (remdups (map (\<lambda>r. (r_serum r, r_virus r, r_conc r)) rows))"

definition group_of :: "row list \<Rightarrow> string \<times> string \<times> real \<Rightarrow> real list" where
  "group_of rows k =
     map r_fracinf (filter (\<lambda>r. (r_serum r, r_virus r, r_conc r) = k) rows)"

definition avg_row :: "row list \<Rightarrow> string \<times> string \<times> real \<Rightarrow> df_row" where
  "avg_row rows k =
     \<lparr>r_serum = fst k, r_virus = fst (snd k), r_replicate = ''average'',
      r_conc = snd (snd k), r_fracinf = mean (group_of rows k),
      r_stderr = sem (group_of rows k), r_count = Some (length (group_of rows k))\<rparr>"

definition avg_df :: "row list \<Rightarrow> df_row list" where
  "avg_df rows = map (avg_row rows) (group_keys rows)"

definition raw_row :: "row \<Rightarrow> df_row" where
  "raw_row r =
     \<lparr>r_serum = r_serum r, r_virus = r_virus r, r_replicate = r_replicate r,
      r_conc = r_conc r, r_fracinf = r_fracinf r, r_stderr = None, r_count = None\<rparr>"

text \<open>
  The constructor. \<open>columns\<close> are the column names of \<open>data\<close> and \<open>rows\<close> its rows
  restricted to the five columns named by the arguments.
\<close>

definition CurveFits_init :: "CurveFits_args \<Rightarrow> string list \<Rightarrow> row list \<Rightarrow> py_error + CurveFits" where
  "CurveFits_init args columns rows =
     (let cols = [serum_col args, virus_col args, replicate_col args, conc_col args,
                  fracinf_col args]
      in if length cols \<noteq> card (set cols) then
           Inl (ValueError (''duplicate column names:'' @ concat (map (\<lambda>c. [CHR 0x0A, CHR 0x09] @ c) cols)))
         else if \<not> set cols \<subseteq> set columns then
           Inl (ValueError (''`data` lacks required columns, which are:'' @
                  concat (map (\<lambda>c. [CHR 0x0A, CHR 0x09] @ c) cols)))
         else
           (let sera0 = unique (map r_serum rows) in
            case serum_loop rows sera0 Map.empty Map.empty of
              Inl e \<Rightarrow> Inl e
            | Inr (vs, reps) \<Rightarrow>
                if ''stderr'' \<in> set cols then
                  Inl (ValueError (''`data` has column '' @ [CHR 0x22] @ ''stderr'' @ [CHR 0x22]))
                else
                  Inr \<lparr>conc_col = conc_col args, fracinf_col = fracinf_col args,
                       serum_col = serum_col args, virus_col = virus_col args,
                       replicate_col = replicate_col args, fixbottom = fixbottom args,
                       fixtop = fixtop args,
                       df = map raw_row rows @ avg_df rows, sera = sera0, viruses = vs,
                       replicates = reps, hillcurves = Map.empty, heap = [],
                       fitparams = None\<rparr>))"

subsection \<open>\<open>CurveFits.getCurve\<close>\<close>

text \<open>The rows selected by the query on serum, virus and replicate.\<close>

definition idata_of :: "df_row list \<Rightarrow> string \<Rightarrow> string \<Rightarrow> string \<Rightarrow> df_row list" where
  "idata_of rows serum virus rep =
     filter (\<lambda>r. r_serum r = serum \<and> r_virus r = virus \<and> r_replicate r = rep) rows"

text \<open>The choice of \<open>fs_stderr\<close> from the column \<open>stderr\<close> of the selected rows.\<close>

definition stderr_of :: "df_row list \<Rightarrow> py_error + real list option" where
  "stderr_of idata =
     (if \<forall>r \<in> set idata. r_stderr r = None then Inr None
      else if \<exists>r \<in> set idata. r_stderr r = None then
        Inl (RuntimeError ''`stderr` has some but not all entries NaN'')
      else Inr (Some (map (\<lambda>r. the (r_stderr r)) idata)))"

text \<open>
  \<open>getCurve\<close> returns the curve, or raises, and may extend the cache: the result is
  paired with the object after the call. The returned curve is a reference into
  \<open>heap\<close>. The argument \<open>replicate\<close> of the source is \<open>rep\<close> here.
\<close>

definition getCurve ::
  "optimizer \<Rightarrow> CurveFits \<Rightarrow> string \<Rightarrow> string \<Rightarrow> string \<Rightarrow> (py_error + nat) \<times> CurveFits" where
  "getCurve curve_fit self serum virus rep =
     (let key = (serum, virus, rep) in
      case hillcurves self key of
        Some ref \<Rightarrow> (Inr ref, self)
      | None \<Rightarrow>
          if serum \<notin> set (sera self) then
            (Inl (ValueError (''invalid `serum` of '' @ serum)), self)
          else
            (case viruses self serum of
               None \<Rightarrow> (Inl KeyError, self)
             | Some vs \<Rightarrow>
                 if virus \<notin> set vs then
                   (Inl (ValueError (''invalid `virus` of '' @ virus @ '' for `serum` of '' @
                           serum)), self)
                 else
                   (case replicates self (serum, virus) of
                      None \<Rightarrow> (Inl KeyError, self)
                    | Some rs \<Rightarrow>
                        if rep \<notin> set rs then
                          (Inl (ValueError (''invalid `replicate` of '' @ rep @
                                  '' for `serum` of '' @ serum @ '' and `virus` of '' @ virus)),
                           self)
                        else
                          (let idata = idata_of (df self) serum virus rep in
                           case stderr_of idata of
                             Inl e \<Rightarrow> (Inl e, self)
                           | Inr se \<Rightarrow>
                               (case HillCurve_init curve_fit (map r_conc idata)
                                       (map r_fracinf idata) se (fixbottom self) (fixtop self)
                                       True of
                                  Inl e \<Rightarrow> (Inl e, self)
                                | Inr curve \<Rightarrow>
                                    (Inr (length (heap self)),
                                     self\<lparr>heap := heap self @ [curve],
                                          hillcurves := (hillcurves self)
                                            (key \<mapsto> length (heap self))\<rparr>))))))"

subsection \<open>\<open>CurveFits.fitParams\<close>\<close>

text \<open>
  The three nested loops that fill the columns \<open>d\<close>, one row at a time. Each call of
  \<open>getCurve\<close> may extend the cache, so the object is threaded through; an exception
  leaves the object as it was when raised.
\<close>

fun fit_replicates ::
  "optimizer \<Rightarrow> (nat \<Rightarrow> real \<Rightarrow> string) \<Rightarrow> string \<Rightarrow> string \<Rightarrow> nat \<Rightarrow> string list
     \<Rightarrow> CurveFits \<Rightarrow> param_row list \<Rightarrow> (py_error + param_row list) \<times> CurveFits" where
  "fit_replicates curve_fit fmt serum virus nreplicates [] self d = (Inr d, self)"
| "fit_replicates curve_fit fmt serum virus nreplicates (rep # rest) self d =
     (case getCurve curve_fit self serum virus rep of
        (Inl e, self') \<Rightarrow> (Inl e, self')
      | (Inr ref, self') \<Rightarrow>
          (let curve = heap self' ! ref in
           case ic50 curve ''bound'' of
             Inl e \<Rightarrow> (Inl e, self')
           | Inr v \<Rightarrow>
               (case ic50_bound curve of
                  Inl e \<Rightarrow> (Inl e, self')
                | Inr b \<Rightarrow>
                    (case ic50_str fmt curve 3 of
                       Inl e \<Rightarrow> (Inl e, self')
                     | Inr s \<Rightarrow>
                         fit_replicates curve_fit fmt serum virus nreplicates rest self'
                           (d @ [\<lparr>p_serum = serum, p_virus = virus, p_replicate = rep,
                                  p_nreplicates =
                                    (if rep = ''average'' then Some nreplicates else None),
                                  p_ic50 = v, p_ic50_bound = b, p_ic50_str = s,
                                  p_midpoint = midpoint curve, p_slope = slope curve,
                                  p_top = top_val curve, p_bottom = bottom curve\<rparr>])))))"

fun fit_viruses ::
  "optimizer \<Rightarrow> (nat \<Rightarrow> real \<Rightarrow> string) \<Rightarrow> string \<Rightarrow> string list
     \<Rightarrow> CurveFits \<Rightarrow> param_row list \<Rightarrow> (py_error + param_row list) \<times> CurveFits" where
  "fit_viruses curve_fit fmt serum [] self d = (Inr d, self)"
| "fit_viruses curve_fit fmt serum (virus # rest) self d =
     (case replicates self (serum, virus) of
        None \<Rightarrow> (Inl KeyError, self)
      | Some reps \<Rightarrow>
          (let nreplicates = length (filter (\<lambda>r. r \<noteq> ''average'') reps) in
           if int nreplicates \<noteq> int (length reps) - 1 then (Inl AssertionError, self)
           else
             (case fit_replicates curve_fit fmt serum virus nreplicates reps self d of
                (Inl e, self') \<Rightarrow> (Inl e, self')
              | (Inr d', self') \<Rightarrow> fit_viruses curve_fit fmt serum rest self' d')))"

fun fit_sera ::
  "optimizer \<Rightarrow> (nat \<Rightarrow> real \<Rightarrow> string) \<Rightarrow> string list
     \<Rightarrow> CurveFits \<Rightarrow> param_row list \<Rightarrow> (py_error + param_row list) \<times> CurveFits" where
  "fit_sera curve_fit fmt [] self d = (Inr d, self)"
| "fit_sera curve_fit fmt (serum # rest) self d =
     (case viruses self serum of
        None \<Rightarrow> (Inl KeyError, self)
      | Some vs \<Rightarrow>
          (case fit_viruses curve_fit fmt serum vs self d of
             (Inl e, self') \<Rightarrow> (Inl e, self')
           | (Inr d', self') \<Rightarrow> fit_sera curve_fit fmt rest self' d'))"

text \<open>
  \<open>fitParams\<close>. A frame built from no rows has no columns, and selecting the columns
  of the table from it raises \<open>KeyError\<close>.
\<close>

definition fitParams ::
  "optimizer \<Rightarrow> (nat \<Rightarrow> real \<Rightarrow> string) \<Rightarrow> CurveFits \<Rightarrow> bool
     \<Rightarrow> (py_error + param_row list) \<times> CurveFits" where
  "fitParams curve_fit fmt self average_only =
     (case (case fitparams self of
              Some table \<Rightarrow> (Inr table, self)
            | None \<Rightarrow>
                (case fit_sera curve_fit fmt (sera self) self [] of
                   (Inl e, self') \<Rightarrow> (Inl e, self')
                 | (Inr d, self') \<Rightarrow>
                     if d = [] then (Inl KeyError, self')
                     else (Inr d, self'\<lparr>fitparams := Some d\<rparr>))) of
        (Inl e, self') \<Rightarrow> (Inl e, self')
      | (Inr table, self') \<Rightarrow>
          (Inr (if average_only then filter (\<lambda>r. p_replicate r = ''average'') table
                else table),
           self'))"

text \<open>Every key of the object, in the order \<open>fitParams\<close> visits them.\<close>

definition all_keys :: "CurveFits \<Rightarrow> (string \<times> string \<times> string) list" where
  "all_keys self =
     concat (map (\<lambda>s. concat (map (\<lambda>v. map (\<lambda>r. (s, v, r)) (the (replicates self (s, v))))
                                 (the (viruses self s))))
                 (sera self))"

text \<open>
  The objects that calls of \<open>getCurve\<close> and \<open>fitParams\<close> lead to, from a given one.
\<close>

inductive reachable :: "CurveFits \<Rightarrow> CurveFits \<Rightarrow> bool" for self0 :: CurveFits where
  start: "reachable self0 self0"
| after_getCurve:
    "reachable self0 self \<Longrightarrow> getCurve curve_fit self serum virus rep = (res, self')
       \<Longrightarrow> reachable self0 self'"
| after_fitParams:
    "reachable self0 self \<Longrightarrow> fitParams curve_fit fmt self average_only = (res', self')
       \<Longrightarrow> reachable self0 self'"

text \<open>
  No two keys of the cache hold the same reference, and every reference is to a
  constructed curve.
\<close>

definition cache_ok :: "CurveFits \<Rightarrow> bool" where
  "cache_ok self =
     (inj_on (hillcurves self) (dom (hillcurves self))
      \<and> (\<forall>ref \<in> ran (hillcurves self). ref < length (heap self)))"

subsection \<open>Sample data\<close>

text \<open>
  An optimiser that returns a midpoint of 3/2 and a slope of 1 for the two parameters
  that are free when both baselines are fixed, and a data set of one serum, one virus
  and one replicate.
\<close>

definition sample_fit :: optimizer where
  "sample_fit p = Inr [3/2, 1]"

definition sample_fmt :: "nat \<Rightarrow> real \<Rightarrow> string" where
  "sample_fmt precision v = ''1.5''"

definition sample_args :: CurveFits_args where
  "sample_args = \<lparr>conc_col = ''concentration'', fracinf_col = ''fraction infectivity'',
     serum_col = ''serum'', virus_col = ''virus'', replicate_col = ''replicate'',
     fixbottom = Number 0, fixtop = Number 1\<rparr>"

definition sample_columns :: "string list" where
  "sample_columns = [''serum'', ''virus'', ''replicate'', ''concentration'',
     ''fraction infectivity'']"

definition sample_rows :: "row list" where
  "sample_rows =
     [\<lparr>r_serum = ''s'', r_virus = ''v'', r_replicate = ''1'', r_conc = 1, r_fracinf = 3/5\<rparr>,
      \<lparr>r_serum = ''s'', r_virus = ''v'', r_replicate = ''1'', r_conc = 2, r_fracinf = 3/7\<rparr>]"

text \<open>
  Two replicates of one serum and virus measured at different concentrations.
\<close>

definition mismatched_rows :: "row list" where
  "mismatched_rows =
     [\<lparr>r_serum = ''s'', r_virus = ''v'', r_replicate = ''1'', r_conc = 1, r_fracinf = 3/5\<rparr>,
      \<lparr>r_serum = ''s'', r_virus = ''v'', r_replicate = ''2'', r_conc = 2, r_fracinf = 3/7\<rparr>]"

text \<open>The object constructed from the sample data, and the curve fitted to it.\<close>

definition sample_cf :: CurveFits where
  "sample_cf = \<lparr>conc_col = ''concentration'', fracinf_col = ''fraction infectivity'',
     serum_col = ''serum'', virus_col = ''virus'', replicate_col = ''replicate'',
     fixbottom = Number 0, fixtop = Number 1,
     df = [\<lparr>r_serum = ''s'', r_virus = ''v'', r_replicate = ''1'', r_conc = 1,
             r_fracinf = 3/5, r_stderr = None, r_count = None\<rparr>,
           \<lparr>r_serum = ''s'', r_virus = ''v'', r_replicate = ''1'', r_conc = 2,
             r_fracinf = 3/7, r_stderr = None, r_count = None\<rparr>,
           \<lparr>r_serum = ''s'', r_virus = ''v'', r_replicate = ''average'', r_conc = 1,
             r_fracinf = 3/5, r_stderr = None, r_count = Some 1\<rparr>,
           \<lparr>r_serum = ''s'', r_virus = ''v'', r_replicate = ''average'', r_conc = 2,
             r_fracinf = 3/7, r_stderr = None, r_count = Some 1\<rparr>],
     sera = [''s''],
     viruses = [''s'' \<mapsto> [''v'']],
     replicates = [(''s'', ''v'') \<mapsto> [''1'', ''average'']],
     hillcurves = Map.empty, heap = [], fitparams = None\<rparr>"

definition sample_curve :: FittedHillCurve where
  "sample_curve = \<lparr>cs = [1, 2], fs = [3/5, 3/7], fs_stderr = None,
     bottom = 0, top_val = 1, midpoint = 3/2, slope = 1,
     plain_bottom = True, plain_top = True\<rparr>"

definition sample_cf1 :: CurveFits where
  "sample_cf1 = sample_cf\<lparr>heap := [sample_curve],
     hillcurves := [(''s'', ''v'', ''1'') \<mapsto> 0]\<rparr>"

definition sample_cf2 :: CurveFits where
  "sample_cf2 = sample_cf\<lparr>heap := [sample_curve, sample_curve],
     hillcurves := [(''s'', ''v'', ''1'') \<mapsto> 0, (''s'', ''v'', ''average'') \<mapsto> 1]\<rparr>"

definition sample_table :: "param_row list" where
  "sample_table =
     [\<lparr>p_serum = ''s'', p_virus = ''v'', p_replicate = ''1'', p_nreplicates = None,
       p_ic50 = Some (3/2), p_ic50_bound = ''interpolated'', p_ic50_str = ''1.5'',
       p_midpoint = 3/2, p_slope = 1, p_top = 1, p_bottom = 0\<rparr>,
      \<lparr>p_serum = ''s'', p_virus = ''v'', p_replicate = ''average'', p_nreplicates = Some 1,
       p_ic50 = Some (3/2), p_ic50_bound = ''interpolated'', p_ic50_str = ''1.5'',
       p_midpoint = 3/2, p_slope = 1, p_top = 1, p_bottom = 0\<rparr>]"

text \<open>
  The predicate \<open>holds_curve\<close>: the cache maps a key to a reference, and the reference
  is to a given curve.
\<close>

definition holds_curve ::
  "string \<times> string \<times> string \<Rightarrow> nat \<Rightarrow> FittedHillCurve \<Rightarrow> CurveFits \<Rightarrow> bool" where
  "holds_curve k ref c x =
     (hillcurves x k = Some ref \<and> ref < length (heap x) \<and> heap x ! ref = c)"

text \<open>The key of a row of the parameter table.\<close>

definition row_key :: "param_row \<Rightarrow> string \<times> string \<times> string" where
  "row_key r = (p_serum r, p_virus r, p_replicate r)"

text \<open>
  The values the constructor's loops compute for a serum and for a serum and virus:
  \<open>serum_viruses\<close> and \<open>virus_reps\<close>.
\<close>

definition serum_viruses_of :: "row list \<Rightarrow> string \<Rightarrow> string list" where
  "serum_viruses_of rows serum = unique (map r_virus (serum_data_of serum rows))"

definition virus_reps_of :: "row list \<Rightarrow> string \<Rightarrow> string \<Rightarrow> string list" where
  "virus_reps_of rows serum virus =
     unique (map r_replicate (virus_data_of virus (serum_data_of serum rows)))"

text \<open>
  The invariant behind unweighted fits: the data and the indices are those of the
  constructed object, every cached reference is to a constructed curve, and a cached
  curve whose rows all lack a standard error has no \<open>fs_stderr\<close>.
\<close>

definition unweighted_inv :: "CurveFits \<Rightarrow> CurveFits \<Rightarrow> bool" where
  "unweighted_inv self0 x =
     (df x = df self0
      \<and> (\<forall>s v r ref. hillcurves x (s, v, r) = Some ref \<longrightarrow>
            ref < length (heap x)
            \<and> ((\<forall>row \<in> set (idata_of (df self0) s v r). r_stderr row = None)
                 \<longrightarrow> fs_stderr (heap x ! ref) = None)))"

text \<open>
  The replicate count \<open>fitParams\<close> records for a serum and virus: the number of its
  replicates other than \<open>'average'\<close>.
\<close>

definition nreplicates_of :: "CurveFits \<Rightarrow> string \<Rightarrow> string \<Rightarrow> nat" where
  "nreplicates_of self serum virus =
     length (filter (\<lambda>r. r \<noteq> ''average'') (the (replicates self (serum, virus))))"

definition row_ok :: "CurveFits \<Rightarrow> param_row \<Rightarrow> bool" where
  "row_ok self row =
     (p_nreplicates row =
        (if p_replicate row = ''average''
         then Some (nreplicates_of self (p_serum row) (p_virus row)) else None))"

definition average_rows :: "param_row list \<Rightarrow> param_row list" where
  "average_rows table = filter (\<lambda>r. p_replicate r = ''average'') table"

text \<open>
  What holds of the data of every constructed curve: at least one concentration, the
  concentrations sorted and positive, and one response for each.
\<close>

definition fitted :: "FittedHillCurve \<Rightarrow> bool" where
  "fitted c =
     (cs c \<noteq> [] \<and> sorted (cs c) \<and> list_all (\<lambda>x. 0 < x) (cs c)
      \<and> length (fs c) = length (cs c))"

text \<open>
  An optimiser that returns a midpoint of 2 and a slope of 1, the parameters of the
  noiseless data of \<open>curve_half\<close>.
\<close>

definition half_fit :: optimizer where
  "half_fit p = Inr [2, 1]"

text \<open>
  A data set whose curve has its IC50 below the measured concentrations: noiseless
  data of the model with top 1, bottom 0, midpoint 1/2 and slope 1, the optimiser that
  returns these values, the object constructed from the data, and the object after the
  curve of the one replicate is cached.
\<close>

definition below_rows :: "row list" where
  "below_rows =
     [\<lparr>r_serum = ''s'', r_virus = ''v'', r_replicate = ''1'', r_conc = 1, r_fracinf = 1/3\<rparr>,
      \<lparr>r_serum = ''s'', r_virus = ''v'', r_replicate = ''1'', r_conc = 2, r_fracinf = 1/5\<rparr>]"

definition below_fit :: optimizer where
  "below_fit p = Inr [1/2, 1]"

definition below_curve :: FittedHillCurve where
  "below_curve = \<lparr>cs = [1, 2], fs = [1/3, 1/5], fs_stderr = None,
     bottom = 0, top_val = 1, midpoint = 1/2, slope = 1,
     plain_bottom = True, plain_top = True\<rparr>"

definition below_cf :: CurveFits where
  "below_cf = \<lparr>conc_col = ''concentration'', fracinf_col = ''fraction infectivity'',
     serum_col = ''serum'', virus_col = ''virus'', replicate_col = ''replicate'',
     fixbottom = Number 0, fixtop = Number 1,
     df = [\<lparr>r_serum = ''s'', r_virus = ''v'', r_replicate = ''1'', r_conc = 1,
             r_fracinf = 1/3, r_stderr = None, r_count = None\<rparr>,
           \<lparr>r_serum = ''s'', r_virus = ''v'', r_replicate = ''1'', r_conc = 2,
             r_fracinf = 1/5, r_stderr = None, r_count = None\<rparr>,
           \<lparr>r_serum = ''s'', r_virus = ''v'', r_replicate = ''average'', r_conc = 1,
             r_fracinf = 1/3, r_stderr = None, r_count = Some 1\<rparr>,
           \<lparr>r_serum = ''s'', r_virus = ''v'', r_replicate = ''average'', r_conc = 2,
             r_fracinf = 1/5, r_stderr = None, r_count = Some 1\<rparr>],
     sera = [''s''],
     viruses = [''s'' \<mapsto> [''v'']],
     replicates = [(''s'', ''v'') \<mapsto> [''1'', ''average'']],
     hillcurves = Map.empty, heap = [], fitparams = None\<rparr>"

definition below_cf1 :: CurveFits where
  "below_cf1 = below_cf\<lparr>heap := [below_curve],
     hillcurves := [(''s'', ''v'', ''1'') \<mapsto> 0]\<rparr>"

section \<open>Properties of \<open>ic50\<close> and \<open>ic50_bound\<close>\<close>

lemmas ic50_defs =
  ic50_def ic50_classify_def ic50_dispatch_def first_item_def last_item_def

lemmas ic50_eval =
  ic50_defs ic50_formula_def truediv_def np_divide_def np_power_def np_multiply_def

text \<open>
  The expression raises only through Python's division, that is, only when top and
  bottom are both plain numbers and the bottom is exactly one half.
\<close>

lemma ic50_formula_error:
  "ic50_formula c = Inl e \<longleftrightarrow>
     e = ZeroDivisionError \<and> plain_top c \<and> plain_bottom c \<and> bottom c = 1/2"
  by (auto simp: ic50_formula_def truediv_def split: if_splits)

text \<open>
  Where the expression stays within the finite numbers it is the closed form
  \<open>m \<cdot> ((t - 1/2) / (1/2 - b))\<^bsup>1/s\<^esup>\<close>.
\<close>

lemma np_power_positive:
  "0 < a \<Longrightarrow> b \<noteq> 0 \<Longrightarrow> np_power (Fin a) (Fin b) = Fin (a powr b)"
  by (simp add: np_power_def)

lemma ic50_formula_closed_form:
  assumes "straddles_half c" and "slope c \<noteq> 0" and "bottom c \<noteq> 1/2" and "top_val c \<noteq> 1/2"
  shows "ic50_formula c =
    Inr (Fin (midpoint c * ((top_val c - 1/2) / (1/2 - bottom c)) powr (1 / slope c)))"
proof -
  define r where "r = (top_val c - 1/2) / (1/2 - bottom c)"
  have pos: "0 < r"
    using assms by (auto simp: r_def straddles_half_def zero_less_divide_iff)
  have e: "1 / slope c \<noteq> 0" using assms(2) by simp
  have "ic50_formula c =
      Inr (np_multiply (midpoint c) (np_power (Fin r) (Fin (1 / slope c))))"
    using assms(2,3) by (simp add: ic50_formula_def truediv_def np_divide_def r_def)
  also have "\<dots> = Inr (Fin (midpoint c * r powr (1 / slope c)))"
    by (simp only: np_power_positive [OF pos e]) (simp add: np_multiply_def)
  finally show ?thesis by (simp only: r_def)
qed

text \<open>
  C1. The claim: \<open>ic50(method="bound")\<close> never raises and returns the smallest measured
  concentration when the algebraic IC50 lies below the measured range or when top and
  bottom are both below one half. The code tags these two cases \<open>'bottom'\<close> and then
  tests the tag against \<open>'lower'\<close>, so it raises \<open>ValueError\<close> in both: on a curve
  whose IC50 of 1/2 lies below the smallest concentration 1, and on a curve with top
  2/5 and bottom 1/10.
\<close>

theorem ic50_bound_method_raises_on_lower_cases:
  "ic50 curve_below ''bound'' = Inl (ValueError ''invalid `bound` bottom'')
   \<and> ic50 curve_low ''bound'' = Inl (ValueError ''invalid `bound` bottom'')"
  by (simp add: ic50_eval curve_below_def curve_low_def)

text \<open>
  C3. The claim: every method other than \<open>"interpolate"\<close> and \<open>"bound"\<close> is rejected,
  whether or not the algebraic IC50 lies in the measured range. The code returns the
  interpolated value before it looks at \<open>method\<close>: on a curve whose IC50 of 2 lies
  within the concentrations 1 to 4, the method \<open>"foo"\<close> returns 2.
\<close>

theorem ic50_unknown_method_returns_in_range:
  "ic50 curve_inside ''foo'' = Inr (Some 2)"
  by (simp add: ic50_eval curve_inside_def)

text \<open>
  \<open>ic50(method="interpolate")\<close> on a curve other than one whose top and bottom are
  both plain numbers with a bottom of one half: it returns the value of the expression
  when top and bottom lie on different sides of one half and the value is finite and
  within the measured concentrations, and \<open>None\<close> otherwise, also where numpy's
  arithmetic yields an infinity or NaN.
\<close>

lemma ic50_interpolate_cases:
  assumes "cs c \<noteq> []" and "\<not> (plain_top c \<and> plain_bottom c \<and> bottom c = 1/2)"
  shows "(\<forall>v. ic50 c ''interpolate'' = Inr (Some v) \<longleftrightarrow>
            straddles_half c \<and> ic50_formula c = Inr (Fin v) \<and> in_measured_range c v)
       \<and> (ic50 c ''interpolate'' = Inr None \<longleftrightarrow>
            \<not> (straddles_half c
               \<and> (\<exists>v. ic50_formula c = Inr (Fin v) \<and> in_measured_range c v)))"
proof (cases "ic50_formula c")
  case (Inl e)
  with assms(2) ic50_formula_error [of c e] show ?thesis by simp
next
  case (Inr w)
  with assms(1) show ?thesis
    by (cases w)
      (auto simp: ic50_defs straddles_half_def in_measured_range_def
        split: list.splits)
qed

lemma ic50_numpy_half_returns_None:
  "ic50 (curve_half\<lparr>plain_bottom := False\<rparr>) ''interpolate'' = Inr None"
  by (simp add: ic50_eval curve_half_def)

text \<open>
  C10. On every curve for which \<open>ic50(method="bound")\<close> returns a value \<open>v\<close> while
  \<open>ic50(method="interpolate")\<close> returns \<open>None\<close>, \<open>v\<close> is the smallest or the largest
  concentration and \<open>ic50_bound()\<close> returns \<open>'lower'\<close> or \<open>'upper'\<close>. Whatever the curve,
  a value returned by \<open>ic50_bound()\<close> is one of \<open>'interpolated'\<close>, \<open>'lower'\<close>, \<open>'upper'\<close>,
  and \<open>ic50_bound()\<close> never raises its own \<open>RuntimeError\<close>. This holds whatever the
  expression for the IC50 evaluates to, an infinity and NaN included.
\<close>

theorem ic50_bound_runtime_error_unreachable:
  "(ic50 c ''bound'' = Inr (Some v) \<and> ic50 c ''interpolate'' = Inr None \<longrightarrow>
      (v = hd (cs c) \<or> v = last (cs c))
      \<and> (ic50_bound c = Inr ''lower'' \<or> ic50_bound c = Inr ''upper''))
   \<and> (\<forall>s. ic50_bound c = Inr s \<longrightarrow> s = ''interpolated'' \<or> s = ''lower'' \<or> s = ''upper'')
   \<and> (\<forall>msg. ic50_bound c \<noteq> Inl (RuntimeError msg))"
proof (intro conjI allI impI)
  assume h: "ic50 c ''bound'' = Inr (Some v) \<and> ic50 c ''interpolate'' = Inr None"
  then show "v = hd (cs c) \<or> v = last (cs c)"
    by (auto simp: ic50_defs split: sum.splits list.splits if_splits fl.splits)
  from h show "ic50_bound c = Inr ''lower'' \<or> ic50_bound c = Inr ''upper''"
    by (auto simp: ic50_bound_def ic50_defs split: sum.splits list.splits if_splits fl.splits)
next
  fix s assume "ic50_bound c = Inr s"
  then show "s = ''interpolated'' \<or> s = ''lower'' \<or> s = ''upper''"
    by (auto simp: ic50_bound_def first_item_def
        split: sum.splits list.splits if_splits option.splits)
next
  fix msg
  show "ic50_bound c \<noteq> Inl (RuntimeError msg)"
  proof
    assume "ic50_bound c = Inl (RuntimeError msg)"
    then show False
      using ic50_formula_error [of c "RuntimeError msg"]
      by (auto simp: ic50_bound_def ic50_defs
          split: sum.splits list.splits if_splits option.splits fl.splits)
  qed
qed

theorem ic50_bound_runtime_error_unreachable_witness:
  "ic50 curve_above ''bound'' = Inr (Some 4) \<and> ic50 curve_above ''interpolate'' = Inr None
   \<and> (4 = hd (cs curve_above) \<or> 4 = last (cs curve_above))
   \<and> ic50_bound curve_above = Inr ''upper''
   \<and> ic50_formula curve_zero_base = Inr PInf
   \<and> ic50 curve_zero_base ''bound'' = Inr (Some 4)
   \<and> ic50 curve_zero_base ''interpolate'' = Inr None
   \<and> ic50_bound curve_zero_base = Inr ''upper''
   \<and> ic50_formula curve_zero_slope = Inr PInf
   \<and> ic50 curve_zero_slope ''bound'' = Inr (Some 4)
   \<and> ic50 curve_zero_slope ''interpolate'' = Inr None
   \<and> ic50_bound curve_zero_slope = Inr ''upper''
   \<and> ic50_bound curve_inside = Inr ''interpolated''"
proof -
  have h: "ic50 curve_above ''bound'' = Inr (Some 4) \<and> ic50 curve_above ''interpolate'' = Inr None"
    by (simp add: ic50_eval curve_above_def)
  have hb: "ic50 curve_zero_base ''bound'' = Inr (Some 4)
      \<and> ic50 curve_zero_base ''interpolate'' = Inr None"
    and fb: "ic50_formula curve_zero_base = Inr PInf"
    by (simp_all add: ic50_eval curve_zero_base_def)
  have hs: "ic50 curve_zero_slope ''bound'' = Inr (Some 4)
      \<and> ic50 curve_zero_slope ''interpolate'' = Inr None"
    and fs: "ic50_formula curve_zero_slope = Inr PInf"
    by (simp_all add: ic50_eval curve_zero_slope_def)
  have i: "ic50_bound curve_inside = Inr ''interpolated''"
    by (simp add: ic50_bound_def ic50_eval curve_inside_def)
  from ic50_bound_runtime_error_unreachable [of curve_above 4] h
  have a: "(4 = hd (cs curve_above) \<or> 4 = last (cs curve_above))
      \<and> (ic50_bound curve_above = Inr ''lower'' \<or> ic50_bound curve_above = Inr ''upper'')"
    by blast
  from ic50_bound_runtime_error_unreachable [of curve_zero_base 4] hb
  have b: "ic50_bound curve_zero_base = Inr ''lower'' \<or> ic50_bound curve_zero_base = Inr ''upper''"
    by blast
  from ic50_bound_runtime_error_unreachable [of curve_zero_slope 4] hs
  have c: "ic50_bound curve_zero_slope = Inr ''lower'' \<or> ic50_bound curve_zero_slope = Inr ''upper''"
    by blast
  have nl: "ic50_bound curve_above \<noteq> Inr ''lower''" "ic50_bound curve_zero_base \<noteq> Inr ''lower''"
    "ic50_bound curve_zero_slope \<noteq> Inr ''lower''"
    by (simp_all add: ic50_bound_def ic50_eval curve_above_def curve_zero_base_def
        curve_zero_slope_def)
  from a b c nl h hb hs fb fs i show ?thesis by simp
qed

section \<open>Properties of \<open>concentrationRange\<close>\<close>






lemma linspace_many:
  assumes "2 \<le> n"
  shows "\<exists>ys. linspace ops a b n = Inr ys \<and> length ys = nat n \<and> last ys = b
     \<and> (\<forall>i<nat n - 1. ys ! i =
           op_add ops
             (if linspace_step ops a b n = Fin 0
              then op_mul ops (op_div ops (Fin (real i)) (Fin (real_of_int (n - 1))))
                     (op_sub ops b a)
              else op_mul ops (Fin (real i)) (linspace_step ops a b n)) a)"
proof -
  let ?d = "op_sub ops b a"
  let ?s = "linspace_step ops a b n"
  let ?f = "\<lambda>v. op_add ops
      (if ?s = Fin 0 then op_mul ops (op_div ops v (Fin (real_of_int (n - 1)))) ?d
       else op_mul ops v ?s) a"
  let ?y = "map (\<lambda>i. ?f (Fin (real i))) [0..<nat n]"
  let ?ys = "?y[nat n - 1 := b]"
  from assms have eq: "linspace ops a b n = Inr ?ys"
    by (simp add: linspace_def linspace_step_def Let_def o_def)
  have len: "length ?ys = nat n" by simp
  from assms have ne: "?ys \<noteq> []" by auto
  have "last ?ys = ?ys ! (nat n - 1)"
    using last_conv_nth [OF ne] len by simp
  also have "\<dots> = b" using assms by simp
  finally have lst: "last ?ys = b" .
  have "?ys ! i = ?f (Fin (real i))" if "i < nat n - 1" for i
    using that by simp
  with eq len lst show ?thesis by blast
qed



lemma exact_ops_simps:
  "op_log10 exact_ops (Fin a) = Fin (log 10 a)"
  "op_sub exact_ops (Fin a) (Fin b) = Fin (a - b)"
  "op_add exact_ops (Fin a) (Fin b) = Fin (a + b)"
  "op_mul exact_ops (Fin a) (Fin b) = Fin (a * b)"
  "op_div exact_ops (Fin a) (Fin b) = Fin (a / b)"
  "op_pow10 exact_ops (Fin a) = Fin (10 powr a)"
  by (simp_all add: exact_ops_def fin1_def fin2_def)

lemma exact_range:
  "log_range exact_ops (Fin lo) (Fin hi) = Fin (log 10 hi - log 10 lo)"
  "lower_exponent exact_ops (Fin lo) (Fin hi) (Fin ex) =
     Fin (log 10 lo - (log 10 hi - log 10 lo) * ex)"
  "upper_exponent exact_ops (Fin lo) (Fin hi) (Fin ex) =
     Fin (log 10 hi + (log 10 hi - log 10 lo) * ex)"
  by (simp_all add: log_range_def lower_exponent_def upper_exponent_def exact_ops_simps)










text \<open>
  Without rounding, on finite numbers, the assertion never fails and, from two points
  on, the points run from at most the lower bound to at least the upper bound. With
  rounding the end points can miss the bounds by a rounding error.
\<close>

lemma concentrationRange_exact_covers:
  assumes "lo < hi" and "0 < lo" and "0 \<le> ex" and "2 \<le> n"
  shows "\<exists>ys. concentrationRange exact_ops (Fin lo) (Fin hi) n (Fin ex) = Inr ys
     \<and> fl_le (hd ys) (Fin lo) \<and> fl_le (Fin hi) (last ys)"
proof -
  let ?r = "log 10 hi - log 10 lo"
  have rng: "0 < ?r" using assms by simp
  then have ext: "0 \<le> ?r * ex" using assms(3) by simp
  let ?a = "log 10 lo - ?r * ex" and ?b = "log 10 hi + ?r * ex"
  have ab: "?a < ?b" using rng ext by linarith
  have eq: "concentrationRange exact_ops (Fin lo) (Fin hi) n (Fin ex) =
      logspace exact_ops (Fin ?a) (Fin ?b) n"
    using assms rng by (simp add: concentrationRange_def exact_range)
  have step: "linspace_step exact_ops (Fin ?a) (Fin ?b) n = Fin ((?b - ?a) / real_of_int (n - 1))"
    by (simp add: linspace_step_def exact_ops_simps)
  have nz: "(?b - ?a) / real_of_int (n - 1) \<noteq> 0" using ab assms(4) by simp
  from linspace_many [OF assms(4), of exact_ops "Fin ?a" "Fin ?b"] obtain zs where
    zs: "linspace exact_ops (Fin ?a) (Fin ?b) n = Inr zs" "length zs = nat n"
      "last zs = Fin ?b"
      "\<forall>i<nat n - 1. zs ! i =
         op_add exact_ops
           (if linspace_step exact_ops (Fin ?a) (Fin ?b) n = Fin 0
            then op_mul exact_ops (op_div exact_ops (Fin (real i)) (Fin (real_of_int (n - 1))))
                   (op_sub exact_ops (Fin ?b) (Fin ?a))
            else op_mul exact_ops (Fin (real i))
                   (linspace_step exact_ops (Fin ?a) (Fin ?b) n)) (Fin ?a)"
    by blast
  from zs(2) assms(4) have ne: "zs \<noteq> []" by auto
  from assms(4) have "0 < nat n - 1" by simp
  with zs(4) have "zs ! 0 = op_add exact_ops
      (op_mul exact_ops (Fin 0) (Fin ((?b - ?a) / real_of_int (n - 1)))) (Fin ?a)"
    using nz by (simp add: step)
  then have "zs ! 0 = Fin ?a" by (simp add: exact_ops_simps)
  with ne have hd: "hd zs = Fin ?a" by (simp add: hd_conv_nth)
  from ne hd zs(3) have ends: "hd (map (op_pow10 exact_ops) zs) = Fin (10 powr ?a)"
      "last (map (op_pow10 exact_ops) zs) = Fin (10 powr ?b)"
    by (simp_all add: hd_map last_map exact_ops_simps)
  have "10 powr ?a \<le> 10 powr (log 10 lo)" using ext by simp
  then have lo: "10 powr ?a \<le> lo" using assms(2) by simp
  have "10 powr (log 10 hi) \<le> 10 powr ?b" using ext by simp
  then have hi: "hi \<le> 10 powr ?b" using assms(1,2) by simp
  from eq zs(1) ends lo hi show ?thesis by (simp add: logspace_def)
qed

section \<open>Properties of the constructor's guesses\<close>

lemmas guess_eval =
  HillCurve_guess_def argsort_def take_at_def guess_slope_def guess_top_def
  guess_bottom_def guess_midpoint_def argmax_bool_def changes_def Let_def upt_conv_Cons

text \<open>
  C4. The claim: the midpoint guess is taken where the sorted responses cross the value
  halfway between the guessed top and the guessed bottom. The code compares with
  \<open>(top - bottom) / 2\<close>, half the distance between them. For the concentrations
  1, 2, 3, 4 with responses 1, 0.9, 0.7, 0.6 and the default arguments (top fixed to 1,
  bottom free) the guesses are top 1 and bottom 0.6; the halfway value 0.8 is crossed
  between the concentrations 2 and 3, whose mean is 2.5, yet the code compares with 0.2,
  finds every response above it and guesses the endpoint 4.
\<close>

theorem midpoint_guess_uses_half_distance:
  "HillCurve_guess [1, 2, 3, 4] [1, 9/10, 7/10, 6/10] None PyFalse (Number 1) =
     Inr \<lparr>cs = [1, 2, 3, 4], fs = [1, 9/10, 7/10, 6/10], fs_stderr = None,
          bottom = 6/10, top_val = 1, midpoint = 4, slope = 1.5\<rparr>
   \<and> spec_guess_midpoint [1, 2, 3, 4] [1, 9/10, 7/10, 6/10] 1.5 1 (6/10) = 5/2"
  by (simp add: guess_eval spec_guess_midpoint_def spec_midvalue_def)

subsection \<open>A constructed curve on which \<open>ic50\<close> raises\<close>

lemma half_HillCurve:
  "HillCurve_init half_fit [1, 2, 4] [13/30, 9/20, 7/15] None (Number (1/2)) (Number (2/5)) True
     = Inr curve_half"
  by (simp add: HillCurve_init_def guess_eval func_vars_of_def half_fit_def setattr_curve_def
      curve_half_def is_plain_def)

text \<open>
  C5. The claim: \<open>ic50(method="interpolate")\<close> returns a number when the algebraic IC50
  exists and lies within the measured concentrations, and \<open>None\<close> in every other case.
  The constructor accepts a top fixed to 2/5 and a bottom fixed to 1/2, both plain
  numbers. On the curve it builds neither of the first two tests of \<open>ic50\<close> holds, and
  the division by \<open>0.5 - self.bottom\<close> is a division of Python floats by zero: the
  call raises \<open>ZeroDivisionError\<close> where the claim and the docstring of the method
  promise \<open>None\<close>.
\<close>

theorem ic50_interpolate_raises_on_fixed_half:
  "HillCurve_init half_fit [1, 2, 4] [13/30, 9/20, 7/15] None (Number (1/2)) (Number (2/5)) True
     = Inr curve_half
   \<and> ic50 curve_half ''interpolate'' = Inl ZeroDivisionError"
  by (simp add: half_HillCurve) (simp add: ic50_eval curve_half_def)

subsection \<open>The sorted data and the midpoint guess\<close>

lemma fold_setattr_stderr [simp]:
  "fs_stderr (fold setattr_curve nvs c) = fs_stderr c"
  by (induction nvs arbitrary: c) (simp_all add: setattr_curve_def)

lemma fold_setattr_cs [simp]:
  "cs (fold setattr_curve nvs c) = cs c"
  by (induction nvs arbitrary: c) (simp_all add: setattr_curve_def)

lemma argsort_length [simp]: "length (argsort xs) = length xs"
  by (simp add: argsort_def)

lemma zip_enumerate_fst: "fst ` set (zip xs [0..<length xs]) = set xs"
proof -
  have "map fst (zip xs [0..<length xs]) = xs" by (simp add: map_fst_zip)
  from arg_cong [OF this, of set] show ?thesis by (simp only: set_map)
qed

lemma zip_enumerate_nth: "p \<in> set (zip xs [0..<length xs]) \<Longrightarrow> xs ! snd p = fst p"
  by (auto simp: in_set_zip)

lemma argsort_sorts:
  "map (\<lambda>i. xs ! i) (argsort xs) = map fst (sort_key fst (zip xs [0..<length xs]))"
  by (simp add: argsort_def zip_enumerate_nth)

lemma argsort_sorted: "sorted (map (\<lambda>i. xs ! i) (argsort xs))"
  by (simp add: argsort_sorts)

lemma argsort_values: "set (map (\<lambda>i. xs ! i) (argsort xs)) = set xs"
  by (simp add: argsort_sorts zip_enumerate_fst)

lemma take_at_length: "take_at ys idx = Inr zs \<Longrightarrow> length zs = length idx"
  by (auto simp: take_at_def split: if_splits)

text \<open>
  What the constructor establishes before it fits: the concentrations are sorted,
  positive and as many as the responses, and there is at least one.
\<close>

lemma HillCurve_guess_data:
  assumes "HillCurve_guess xs ys se fb ft = Inr c"
  shows "cs c \<noteq> []" and "sorted (cs c)" and "\<forall>x \<in> set (cs c). 0 < x"
    and "length (fs c) = length (cs c)" and "set (cs c) = set xs"
proof -
  from assms obtain fs_sorted where
    f: "take_at ys (argsort xs) = Inr fs_sorted" "fs_sorted \<noteq> []"
    and pos: "\<not> (\<exists>x \<in> set (map (\<lambda>i. xs ! i) (argsort xs)). x \<le> 0)"
    and c: "cs c = map (\<lambda>i. xs ! i) (argsort xs)" "fs c = fs_sorted"
    by (auto simp: HillCurve_guess_def Let_def split: sum.splits if_splits)
  from take_at_length [OF f(1)] have len: "length fs_sorted = length xs" by simp
  show "length (fs c) = length (cs c)" using c len by simp
  have "xs \<noteq> []" using len f(2) by auto
  then have "argsort xs \<noteq> []" using argsort_length [of xs] by (metis length_0_conv)
  then show "cs c \<noteq> []" using c by simp
  show "sorted (cs c)" using c by (simp add: argsort_sorted)
  show "\<forall>x \<in> set (cs c). 0 < x" using pos c by (auto simp: not_le)
  show "set (cs c) = set xs" using c argsort_values [of xs] by simp
qed

lemma fold_setattr_fs [simp]: "fs (fold setattr_curve nvs c) = fs c"
  by (induction nvs arbitrary: c) (simp_all add: setattr_curve_def)

lemma HillCurve_init_data:
  assumes "HillCurve_init cf xs ys se fb ft lg = Inr c"
  shows "cs c \<noteq> []" and "sorted (cs c)" and "\<forall>x \<in> set (cs c). 0 < x"
    and "length (fs c) = length (cs c)" and "set (cs c) = set xs"
proof -
  from assms obtain g where g: "HillCurve_guess xs ys se fb ft = Inr g"
    and "cs c = cs g" "fs c = fs g"
    by (auto simp: HillCurve_init_def Let_def split: sum.splits if_splits)
  with HillCurve_guess_data [OF g]
  show "cs c \<noteq> []" and "sorted (cs c)" and "\<forall>x \<in> set (cs c). 0 < x"
    and "length (fs c) = length (cs c)" and "set (cs c) = set xs"
    by simp_all
qed

text \<open>
  The optimiser is given the curve's \<open>fs_stderr\<close> as \<open>sigma\<close>: a curve without
  \<open>fs_stderr\<close> was fitted unweighted.
\<close>

lemma HillCurve_init_sigma:
  assumes "HillCurve_init cf xs ys se fb ft lg = Inr c"
  shows "\<exists>p popt. cf p = Inr popt \<and> fp_sigma p = fs_stderr c \<and> fp_ydata p = fs c"
  using assms
  by (auto simp: HillCurve_init_def Let_def split: sum.splits if_splits)

lemma first_true_props:
  "True \<in> set bs \<Longrightarrow>
     first_true bs < length bs \<and> bs ! first_true bs \<and> (\<forall>j < first_true bs. \<not> bs ! j)"
proof (induction bs)
  case Nil
  then show ?case by simp
next
  case (Cons b bs)
  show ?case
  proof (cases b)
    case True
    then show ?thesis by simp
  next
    case False
    with Cons.prems have "True \<in> set bs" by auto
    from Cons.IH [OF this] False show ?thesis
      by (auto simp: nth_Cons split: nat.splits)
  qed
qed


lemma changes_length [simp]: "length (changes bs) = length bs - 1"
  by (simp add: changes_def)

lemma changes_nth:
  "Suc j < length bs \<Longrightarrow> changes bs ! j = (bs ! j \<noteq> bs ! Suc j)"
  by (simp add: changes_def nth_butlast nth_tl)

lemma changes_exists:
  "\<not> list_all (\<lambda>x. x) bs \<Longrightarrow> \<not> list_all (\<lambda>x. \<not> x) bs \<Longrightarrow> True \<in> set (changes bs)"
proof (induction bs)
  case Nil
  then show ?case by simp
next
  case (Cons x rest)
  show ?case
  proof (cases rest)
    case Nil
    with Cons.prems show ?thesis by (cases x) simp_all
  next
    case (Cons y ys)
    show ?thesis
    proof (cases "x = y")
      case False
      with Cons show ?thesis by (simp add: changes_def)
    next
      case True
      with Cons Cons.prems have "\<not> list_all (\<lambda>x. x) rest" "\<not> list_all (\<lambda>x. \<not> x) rest"
        by auto
      from Cons.IH [OF this] Cons show ?thesis by (simp add: changes_def)
    qed
  qed
qed

text \<open>
  With as many concentrations as responses the midpoint guess never fails: where the
  responses lie on both sides of \<open>midval\<close>, the index found is that of the first
  adjacent pair on different sides, and the guess is the mean of the two
  concentrations at that pair.
\<close>

lemma guess_midpoint_crossing:
  assumes mv: "mv = (t - b) / 2"
    and "\<not> list_all (\<lambda>f. f > mv) ys" and "\<not> list_all (\<lambda>f. f \<le> mv) ys"
  shows "\<exists>i. Suc i < length ys
      \<and> ((ys ! i > mv) \<noteq> (ys ! Suc i > mv))
      \<and> (\<forall>j < i. (ys ! j > mv) = (ys ! Suc j > mv))
      \<and> guess_midpoint xs ys s t b = Inr ((xs ! i + xs ! Suc i) / 2)"
proof -
  let ?above = "map (\<lambda>f. f > mv) ys"
  let ?i = "first_true (changes ?above)"
  have "\<not> list_all (\<lambda>x. x) ?above" "\<not> list_all (\<lambda>x. \<not> x) ?above"
    using assms(2,3) by (simp_all add: list_all_iff not_less)
  then have ex: "True \<in> set (changes ?above)" by (rule changes_exists)
  note p = first_true_props [OF ex]
  from p have "?i < length ys - 1" by simp
  then have lt: "Suc ?i < length ys" by simp
  then have lt': "Suc ?i < length ?above" by simp
  from p changes_nth [OF lt'] lt have cross: "(ys ! ?i > mv) \<noteq> (ys ! Suc ?i > mv)"
    by simp
  have before: "(ys ! j > mv) = (ys ! Suc j > mv)" if "j < ?i" for j
  proof -
    from that lt have "Suc j < length ?above" by simp
    from changes_nth [OF this] p that lt show ?thesis by simp
  qed
  have "guess_midpoint xs ys s t b = Inr ((xs ! ?i + xs ! Suc ?i) / 2)"
    using assms(2,3) ex cross lt
    by (simp add: guess_midpoint_def Let_def argmax_bool_def mv [symmetric])
  with lt cross before show ?thesis by blast
qed

lemma guess_midpoint_total:
  "\<exists>m. guess_midpoint xs ys s t b = Inr m"
proof -
  define mv where "mv = (t - b) / 2"
  show ?thesis
  proof (cases "list_all (\<lambda>f. f > mv) ys \<or> list_all (\<lambda>f. f \<le> mv) ys")
    case True
    then show ?thesis
      by (auto simp: guess_midpoint_def Let_def mv_def [symmetric])
  next
    case False
    with guess_midpoint_crossing [OF mv_def, of ys xs s] show ?thesis by auto
  qed
qed

lemma HillCurve_init_fitted:
  "HillCurve_init cf xs ys se fb ft lg = Inr c \<Longrightarrow> fitted c"
  using HillCurve_init_data [of cf xs ys se fb ft lg c]
  by (simp add: fitted_def list_all_iff)
section \<open>Properties of \<open>getCurve\<close>\<close>

lemma getCurve_cached:
  "hillcurves self (serum, virus, rep) = Some ref \<Longrightarrow>
     getCurve curve_fit self serum virus rep = (Inr ref, self)"
  by (simp add: getCurve_def)

lemma getCurve_cases:
  assumes "getCurve curve_fit self serum virus rep = (res, self')"
  obtains
    (hit) ref where "hillcurves self (serum, virus, rep) = Some ref" "res = Inr ref" "self' = self"
  | (fail) e where "hillcurves self (serum, virus, rep) = None" "res = Inl e" "self' = self"
  | (build) se curve rs where "hillcurves self (serum, virus, rep) = None"
      "replicates self (serum, virus) = Some rs" "rep \<in> set rs"
      "stderr_of (idata_of (df self) serum virus rep) = Inr se"
      "HillCurve_init curve_fit (map r_conc (idata_of (df self) serum virus rep))
         (map r_fracinf (idata_of (df self) serum virus rep)) se (fixbottom self) (fixtop self)
         True = Inr curve"
      "res = Inr (length (heap self))"
      "self' = self\<lparr>heap := heap self @ [curve],
                 hillcurves := (hillcurves self)((serum, virus, rep) \<mapsto> length (heap self))\<rparr>"
proof (cases "hillcurves self (serum, virus, rep)")
  case (Some ref)
  with assms have "res = Inr ref" "self' = self" by (simp_all add: getCurve_def)
  with Some show ?thesis by (rule hit)
next
  case None
  note miss = None
  let ?idata = "idata_of (df self) serum virus rep"
  show ?thesis
  proof (cases "serum \<in> set (sera self)")
    case False
    with assms miss have "self' = self" "\<exists>e. res = Inl e"
      by (auto simp: getCurve_def)
    with miss fail show ?thesis by blast
  next
    case s: True
    show ?thesis
    proof (cases "viruses self serum")
      case None
      with assms miss s have "self' = self" "\<exists>e. res = Inl e"
      by (auto simp: getCurve_def)
    with miss fail show ?thesis by blast
    next
      case vs: (Some vs)
      show ?thesis
      proof (cases "virus \<in> set vs")
        case False
        with assms miss s vs have "self' = self" "\<exists>e. res = Inl e"
      by (auto simp: getCurve_def)
    with miss fail show ?thesis by blast
      next
        case v: True
        show ?thesis
        proof (cases "replicates self (serum, virus)")
          case None
          with assms miss s vs v have "self' = self" "\<exists>e. res = Inl e"
      by (auto simp: getCurve_def)
    with miss fail show ?thesis by blast
        next
          case rs: (Some rs)
          show ?thesis
          proof (cases "rep \<in> set rs")
            case False
            with assms miss s vs v rs have "self' = self" "\<exists>e. res = Inl e"
      by (auto simp: getCurve_def)
    with miss fail show ?thesis by blast
          next
            case r: True
            show ?thesis
            proof (cases "stderr_of ?idata")
              case (Inl e)
              with assms miss s vs v rs r have "self' = self" "\<exists>e. res = Inl e"
      by (auto simp: getCurve_def)
    with miss fail show ?thesis by blast
            next
              case se: (Inr se)
              show ?thesis
              proof (cases "HillCurve_init curve_fit (map r_conc ?idata)
                  (map r_fracinf ?idata) se (fixbottom self) (fixtop self) True")
                case (Inl e)
                with assms miss s vs v rs r se have "self' = self" "\<exists>e. res = Inl e"
      by (auto simp: getCurve_def)
    with miss fail show ?thesis by blast
              next
                case (Inr curve)
                with assms miss s vs v rs r se
                have "res = Inr (length (heap self))"
                  and "self' = self\<lparr>heap := heap self @ [curve],
                     hillcurves := (hillcurves self)((serum, virus, rep) \<mapsto> length (heap self))\<rparr>"
                  by (simp_all add: getCurve_def)
                with miss rs r se Inr show ?thesis by (intro build)
              qed
            qed
          qed
        qed
      qed
    qed
  qed
qed

lemma getCurve_frame:
  assumes "getCurve curve_fit self serum virus rep = (res, self')"
  shows "df self' = df self" "sera self' = sera self" "viruses self' = viruses self"
    "replicates self' = replicates self" "fixbottom self' = fixbottom self"
    "fixtop self' = fixtop self" "fitparams self' = fitparams self"
    "take (length (heap self)) (heap self') = heap self"
    "length (heap self) \<le> length (heap self')"
  using assms by (auto elim!: getCurve_cases)

lemma getCurve_other_keys:
  assumes "getCurve curve_fit self serum virus rep = (res, self')"
    and "k \<noteq> (serum, virus, rep)"
  shows "hillcurves self' k = hillcurves self k"
  using assms(1)
  by (cases rule: getCurve_cases) (use assms(2) in simp_all)

lemma getCurve_keeps:
  assumes "getCurve curve_fit self serum virus rep = (res, self')"
    and "hillcurves self k = Some ref"
  shows "hillcurves self' k = Some ref"
  using assms(1)
  by (cases rule: getCurve_cases) (use assms(2) in auto)

lemma getCurve_stores:
  assumes "getCurve curve_fit self serum virus rep = (Inr ref, self')"
  shows "hillcurves self' (serum, virus, rep) = Some ref"
  using assms by (auto elim!: getCurve_cases)

lemma getCurve_cache_ok:
  assumes "getCurve curve_fit self serum virus rep = (res, self')" and "cache_ok self"
  shows "cache_ok self'"
  using assms(1)
proof (cases rule: getCurve_cases)
  case (build se curve rs)
  have fresh: "length (heap self) \<notin> ran (hillcurves self)"
    using assms(2) by (auto simp: cache_ok_def)
  have inj: "inj_on (hillcurves self) (dom (hillcurves self))"
    using assms(2) by (simp add: cache_ok_def)
  let ?k = "(serum, virus, rep)"
  let ?m = "(hillcurves self)(?k \<mapsto> length (heap self))"
  have old: "hillcurves self k \<noteq> Some (length (heap self))" for k
    using fresh by (auto dest: ranI)
  have "inj_on ?m (dom ?m)"
  proof (rule inj_onI)
    fix a b assume a: "a \<in> dom ?m" and b: "b \<in> dom ?m" and eq: "?m a = ?m b"
    show "a = b"
    proof (cases "a = ?k")
      case True
      show ?thesis
      proof (rule ccontr)
        assume "a \<noteq> b"
        with True eq have "hillcurves self b = Some (length (heap self))" by simp
        with old show False by blast
      qed
    next
      case False
      show ?thesis
      proof (cases "b = ?k")
        case True
        with False eq have "hillcurves self a = Some (length (heap self))" by simp
        with old show ?thesis by blast
      next
        case bk: False
        from False bk eq have e: "hillcurves self a = hillcurves self b" by simp
        from False a have "a \<in> dom (hillcurves self)" by auto
        moreover from bk b have "b \<in> dom (hillcurves self)" by auto
        ultimately show ?thesis using inj e by (auto dest: inj_onD)
      qed
    qed
  qed
  moreover have "\<forall>ref \<in> ran ?m. ref < length (heap self @ [curve])"
  proof
    fix ref assume "ref \<in> ran ?m"
    then obtain k where k: "?m k = Some ref" by (auto simp: ran_def)
    show "ref < length (heap self @ [curve])"
    proof (cases "k = ?k")
      case True with k show ?thesis by simp
    next
      case False
      with k have "hillcurves self k = Some ref" by simp
      then have "ref \<in> ran (hillcurves self)" by (rule ranI)
      with assms(2) show ?thesis by (auto simp: cache_ok_def)
    qed
  qed
  ultimately show ?thesis using build by (simp add: cache_ok_def)
next
  case (hit ref)
  with assms(2) show ?thesis by blast
next
  case (fail e)
  with assms(2) show ?thesis by blast
qed

section \<open>Invariants of the calls\<close>

lemma fit_replicates_inv:
  assumes step: "\<And>cf x s v r res y. P x \<Longrightarrow> getCurve cf x s v r = (res, y) \<Longrightarrow> P y"
  shows "P self \<Longrightarrow> fit_replicates curve_fit fmt serum virus n reps self d = (res, self')
    \<Longrightarrow> P self'"
proof (induction reps arbitrary: self d)
  case Nil
  then show ?case by simp
next
  case (Cons rep rest)
  obtain r1 s1 where g: "getCurve curve_fit self serum virus rep = (r1, s1)"
    by (cases "getCurve curve_fit self serum virus rep")
  have p1: "P s1" using step [OF Cons.prems(1) g] .
  show ?case
  proof (cases r1)
    case (Inl e)
    with Cons.prems(2) g p1 show ?thesis by simp
  next
    case (Inr ref)
    with Cons.prems(2) g p1 Cons.IH [OF p1] show ?thesis
      by (auto simp: Let_def split: sum.splits)
  qed
qed

lemma fit_viruses_inv:
  assumes step: "\<And>cf x s v r res y. P x \<Longrightarrow> getCurve cf x s v r = (res, y) \<Longrightarrow> P y"
  shows "P self \<Longrightarrow> fit_viruses curve_fit fmt serum vs self d = (res, self') \<Longrightarrow> P self'"
proof (induction vs arbitrary: self d)
  case Nil
  then show ?case by simp
next
  case (Cons virus rest)
  show ?case
  proof (cases "replicates self (serum, virus)")
    case None
    with Cons.prems show ?thesis by simp
  next
    case (Some reps)
    let ?n = "length (filter (\<lambda>r. r \<noteq> ''average'') reps)"
    show ?thesis
    proof (cases "int ?n \<noteq> int (length reps) - 1")
      case True
      with Cons.prems Some show ?thesis by (simp add: Let_def)
    next
      case False
      obtain r1 s1 where f: "fit_replicates curve_fit fmt serum virus ?n reps self d = (r1, s1)"
        by (cases "fit_replicates curve_fit fmt serum virus ?n reps self d")
      have p1: "P s1" using fit_replicates_inv [of P, OF step Cons.prems(1) f] .
      show ?thesis
      proof (cases r1)
        case (Inl e)
        with Cons.prems(2) Some False f p1 show ?thesis by (simp add: Let_def)
      next
        case (Inr d')
        with Cons.prems(2) Some False f Cons.IH [OF p1] show ?thesis by (simp add: Let_def)
      qed
    qed
  qed
qed

lemma fit_sera_inv:
  assumes step: "\<And>cf x s v r res y. P x \<Longrightarrow> getCurve cf x s v r = (res, y) \<Longrightarrow> P y"
  shows "P self \<Longrightarrow> fit_sera curve_fit fmt ss self d = (res, self') \<Longrightarrow> P self'"
proof (induction ss arbitrary: self d)
  case Nil
  then show ?case by simp
next
  case (Cons serum rest)
  show ?case
  proof (cases "viruses self serum")
    case None
    with Cons.prems show ?thesis by simp
  next
    case (Some vs)
    obtain r1 s1 where f: "fit_viruses curve_fit fmt serum vs self d = (r1, s1)"
      by (cases "fit_viruses curve_fit fmt serum vs self d")
    have p1: "P s1" using fit_viruses_inv [of P, OF step Cons.prems(1) f] .
    show ?thesis
    proof (cases r1)
      case (Inl e)
      with Cons.prems(2) Some f p1 show ?thesis by simp
    next
      case (Inr d')
      with Cons.prems(2) Some f Cons.IH [OF p1] show ?thesis by simp
    qed
  qed
qed

lemma fitParams_cases:
  assumes "fitParams curve_fit fmt self average_only = (res, self')"
  obtains
    (cached) table where "fitparams self = Some table" "self' = self"
      "res = Inr (if average_only then filter (\<lambda>r. p_replicate r = ''average'') table else table)"
  | (raised) e where "fitparams self = None" "res = Inl e"
      "fit_sera curve_fit fmt (sera self) self [] = (Inl e, self')"
  | (empty) "fitparams self = None" "res = Inl KeyError"
      "fit_sera curve_fit fmt (sera self) self [] = (Inr [], self')"
  | (computed) d s1 where "fitparams self = None" "d \<noteq> []"
      "fit_sera curve_fit fmt (sera self) self [] = (Inr d, s1)"
      "self' = s1\<lparr>fitparams := Some d\<rparr>"
      "res = Inr (if average_only then filter (\<lambda>r. p_replicate r = ''average'') d else d)"
proof (cases "fitparams self")
  case (Some table)
  with assms show ?thesis by (intro cached [of table]) (auto simp: fitParams_def)
next
  case None
  obtain r1 s1 where f: "fit_sera curve_fit fmt (sera self) self [] = (r1, s1)"
    by (cases "fit_sera curve_fit fmt (sera self) self []")
  show ?thesis
  proof (cases r1)
    case (Inl e)
    with assms None f show ?thesis by (intro raised [of e]) (auto simp: fitParams_def)
  next
    case (Inr d)
    show ?thesis
    proof (cases "d = []")
      case True
      with assms None f Inr show ?thesis by (intro empty) (auto simp: fitParams_def)
    next
      case False
      with assms None f Inr show ?thesis
        by (intro computed [of d s1]) (auto simp: fitParams_def)
    qed
  qed
qed

lemma fitParams_inv:
  assumes step: "\<And>cf x s v r res y. P x \<Longrightarrow> getCurve cf x s v r = (res, y) \<Longrightarrow> P y"
    and upd: "\<And>x t. P x \<Longrightarrow> P (x\<lparr>fitparams := t\<rparr>)"
    and "P self" and "fitParams curve_fit fmt self average_only = (res, self')"
  shows "P self'"
  using assms(4)
proof (cases rule: fitParams_cases)
  case (cached table)
  with assms(3) show ?thesis by simp
next
  case (raised e)
  from fit_sera_inv [of P, OF step assms(3) raised(3)] show ?thesis .
next
  case empty
  from fit_sera_inv [of P, OF step assms(3) empty(3)] show ?thesis .
next
  case (computed d s1)
  from fit_sera_inv [of P, OF step assms(3) computed(3)] have "P s1" .
  with computed(4) upd show ?thesis by simp
qed

lemma reachable_inv:
  assumes "reachable a b" and "P a"
    and step: "\<And>cf x s v r res y. P x \<Longrightarrow> getCurve cf x s v r = (res, y) \<Longrightarrow> P y"
    and upd: "\<And>x t. P x \<Longrightarrow> P (x\<lparr>fitparams := t\<rparr>)"
  shows "P b"
  using assms(1)
proof (induction rule: reachable.induct)
  case start
  show ?case by (rule assms(2))
next
  case (after_getCurve self curve_fit serum virus rep res self')
  then show ?case using step by blast
next
  case (after_fitParams self curve_fit fmt average_only res' self')
  from fitParams_inv [of P, OF step upd after_fitParams.IH after_fitParams.hyps(2)]
  show ?case .
qed

section \<open>The cache of curves\<close>

lemma CurveFits_init_fields:
  assumes "CurveFits_init args columns rows = Inr self0"
  shows "hillcurves self0 = Map.empty" "heap self0 = []" "fitparams self0 = None"
    "df self0 = map raw_row rows @ avg_df rows"
    "sera self0 = unique (map r_serum rows)"
    "serum_loop rows (unique (map r_serum rows)) Map.empty Map.empty =
       Inr (viruses self0, replicates self0)"
    "fixbottom self0 = fixbottom args" "fixtop self0 = fixtop args"
  using assms
  by (auto simp: CurveFits_init_def Let_def split: if_splits sum.splits prod.splits)

lemma cache_ok_init:
  "CurveFits_init args columns rows = Inr self0 \<Longrightarrow> cache_ok self0"
  by (simp add: cache_ok_def CurveFits_init_fields)

lemma cache_ok_fitparams [simp]: "cache_ok (x\<lparr>fitparams := t\<rparr>) = cache_ok x"
  by (simp add: cache_ok_def)

lemma reachable_cache_ok:
  "reachable a b \<Longrightarrow> cache_ok a \<Longrightarrow> cache_ok b"
  by (erule reachable_inv [where P = cache_ok]) (auto intro: getCurve_cache_ok)

lemma getCurve_holds_curve:
  assumes "holds_curve k ref c x" and "getCurve cf x s v r = (res, y)"
  shows "holds_curve k ref c y"
proof -
  from assms(1) have a: "hillcurves x k = Some ref" "ref < length (heap x)" "heap x ! ref = c"
    by (simp_all add: holds_curve_def)
  have "heap y ! ref = take (length (heap x)) (heap y) ! ref"
    using a(2) by simp
  also have "\<dots> = c" using getCurve_frame(8) [OF assms(2)] a(3) by simp
  finally have "heap y ! ref = c" .
  moreover have "ref < length (heap y)" using a(2) getCurve_frame(9) [OF assms(2)] by simp
  ultimately show ?thesis using getCurve_keeps [OF assms(2) a(1)] by (simp add: holds_curve_def)
qed

lemma reachable_holds_curve:
  assumes "reachable a b" and "holds_curve k ref c a"
  shows "holds_curve k ref c b"
  using assms
proof (rule reachable_inv [where P = "holds_curve k ref c"])
  fix cf x s v r res y
  assume "holds_curve k ref c x" and "getCurve cf x s v r = (res, y)"
  then show "holds_curve k ref c y" by (rule getCurve_holds_curve)
next
  fix x t
  assume "holds_curve k ref c x"
  then show "holds_curve k ref c (x\<lparr>fitparams := t\<rparr>)" by (simp add: holds_curve_def)
qed

lemma getCurve_ref_valid:
  assumes "getCurve cf x s v r = (Inr ref, y)" and "cache_ok x"
  shows "holds_curve (s, v, r) ref (heap y ! ref) y"
proof -
  have "hillcurves y (s, v, r) = Some ref" using assms(1) by (rule getCurve_stores)
  moreover have "cache_ok y" using assms by (rule getCurve_cache_ok)
  ultimately show ?thesis by (auto simp: holds_curve_def cache_ok_def dest: ranI)
qed

text \<open>
  C6. Take an object made by the constructor and any object reached from it by calls of
  \<open>getCurve\<close> and \<open>fitParams\<close>. When \<open>getCurve\<close> returns a curve for a key, every
  later call with the same key, whatever calls come in between and whatever optimiser
  is at hand, returns the same reference and leaves the object as it is: nothing is
  constructed or fitted. The referenced curve stays the one the first call returned,
  and no two distinct keys of the cache hold the same reference.
\<close>

theorem getCurve_returns_cached:
  assumes "CurveFits_init args columns rows = Inr self0"
    and "reachable self0 self"
    and "getCurve curve_fit self serum virus rep = (Inr ref, self')"
    and "reachable self' self''"
  shows "(\<forall>cf. getCurve cf self'' serum virus rep = (Inr ref, self''))
    \<and> ref < length (heap self') \<and> heap self'' ! ref = heap self' ! ref
    \<and> (\<forall>k1 k2 r1 r2. k1 \<noteq> k2 \<and> hillcurves self'' k1 = Some r1 \<and> hillcurves self'' k2 = Some r2
          \<longrightarrow> r1 \<noteq> r2)"
proof -
  have ok: "cache_ok self"
    using assms(1,2) by (blast intro: reachable_cache_ok cache_ok_init)
  have ok': "cache_ok self'" using assms(3) ok by (rule getCurve_cache_ok)
  have ok'': "cache_ok self''" using assms(4) ok' by (rule reachable_cache_ok)
  have h': "holds_curve (serum, virus, rep) ref (heap self' ! ref) self'"
    using assms(3) ok by (rule getCurve_ref_valid)
  then have h'': "holds_curve (serum, virus, rep) ref (heap self' ! ref) self''"
    using assms(4) by (blast intro: reachable_holds_curve)
  have "getCurve cf self'' serum virus rep = (Inr ref, self'')" for cf
    using h'' by (simp add: holds_curve_def getCurve_cached)
  moreover have "k1 \<noteq> k2 \<and> hillcurves self'' k1 = Some r1 \<and> hillcurves self'' k2 = Some r2
      \<longrightarrow> r1 \<noteq> r2" for k1 k2 r1 r2
  proof (intro impI notI)
    assume a: "k1 \<noteq> k2 \<and> hillcurves self'' k1 = Some r1 \<and> hillcurves self'' k2 = Some r2"
      and "r1 = r2"
    then have "hillcurves self'' k1 = hillcurves self'' k2" by simp
    moreover from a have "k1 \<in> dom (hillcurves self'')" "k2 \<in> dom (hillcurves self'')" by auto
    ultimately have "k1 = k2" using ok'' by (auto simp: cache_ok_def dest: inj_onD)
    with a show False by simp
  qed
  ultimately show ?thesis using h' h'' by (simp add: holds_curve_def)
qed

section \<open>Evaluation on the sample data\<close>

lemmas init_eval = serum_data_of_def virus_data_of_def rep_concs_def Let_def

lemma sample_group_keys: "group_keys sample_rows = [(''s'', ''v'', 1), (''s'', ''v'', 2)]"
  by (simp add: group_keys_def sample_rows_def)

lemma sample_avg: "avg_df sample_rows = drop 2 (df sample_cf)"
  unfolding avg_df_def sample_group_keys
  by (simp add: avg_row_def group_of_def sample_rows_def mean_def sem_def sample_cf_def)

lemma sample_raw: "map raw_row sample_rows = take 2 (df sample_cf)"
  by (simp add: raw_row_def sample_rows_def sample_cf_def)

lemma sample_sera: "unique (map r_serum sample_rows) = [''s'']"
  by (simp add: sample_rows_def)

lemma sample_loop: "serum_loop sample_rows [''s''] Map.empty Map.empty
   = Inr ([''s'' \<mapsto> [''v'']], [(''s'', ''v'') \<mapsto> [''1'', ''average'']])"
  by (simp add: sample_rows_def init_eval)

lemma sample_init: "CurveFits_init sample_args sample_columns sample_rows = Inr sample_cf"
proof -
  have "take 2 (df sample_cf) @ drop 2 (df sample_cf) = df sample_cf" by simp
  then show ?thesis
    unfolding CurveFits_init_def Let_def sample_sera sample_loop sample_avg sample_raw
    by (simp add: sample_args_def sample_columns_def sample_cf_def)
qed

lemma sample_HillCurve:
  "HillCurve_init sample_fit [1, 2] [3/5, 3/7] None (Number 0) (Number 1) True = Inr sample_curve"
  by (simp add: HillCurve_init_def guess_eval func_vars_of_def sample_fit_def setattr_curve_def
      sample_curve_def is_plain_def)

lemma sample_get1: "getCurve sample_fit sample_cf ''s'' ''v'' ''1'' = (Inr 0, sample_cf1)"
  by (simp add: getCurve_def sample_cf_def sample_cf1_def idata_of_def stderr_of_def
      sample_HillCurve)

lemma sample_get2: "getCurve sample_fit sample_cf1 ''s'' ''v'' ''average'' = (Inr 1, sample_cf2)"
  by (simp add: getCurve_def sample_cf_def sample_cf1_def sample_cf2_def idata_of_def
      stderr_of_def sample_HillCurve)

lemma sample_ic50:
  "ic50 sample_curve ''bound'' = Inr (Some (3/2))"
  "ic50_bound sample_curve = Inr ''interpolated''"
  "ic50_str sample_fmt sample_curve 3 = Inr ''1.5''"
  by (simp_all add: ic50_str_def ic50_bound_def ic50_eval sample_curve_def ic50_prefix_def
      sample_fmt_def)

lemma sample_fields:
  "heap sample_cf1 ! 0 = sample_curve" "heap sample_cf2 ! Suc 0 = sample_curve"
  "midpoint sample_curve = 3/2" "slope sample_curve = 1" "top_val sample_curve = 1"
  "bottom sample_curve = 0"
  "sera sample_cf = [''s'']" "viruses sample_cf ''s'' = Some [''v'']"
  "replicates sample_cf (''s'', ''v'') = Some [''1'', ''average'']"
  "fitparams sample_cf = None"
  by (simp_all add: sample_cf_def sample_cf1_def sample_cf2_def sample_curve_def)

lemma sample_fit_sera:
  "fit_sera sample_fit sample_fmt (sera sample_cf) sample_cf [] = (Inr sample_table, sample_cf2)"
  by (simp add: sample_fields sample_get1 sample_get2 sample_ic50 sample_table_def)

lemma sample_params:
  "fitParams sample_fit sample_fmt sample_cf True =
     (Inr (drop 1 sample_table), sample_cf2\<lparr>fitparams := Some sample_table\<rparr>)"
  unfolding fitParams_def sample_fit_sera
  by (simp add: sample_fields sample_table_def)

section \<open>Unweighted fits\<close>

lemma set_unique [simp]: "set (unique xs) = set xs"
  by (induction xs rule: unique.induct) auto

lemma distinct_unique [simp]: "distinct (unique xs)"
  by (induction xs rule: unique.induct) auto

lemma HillCurve_guess_stderr_None:
  "HillCurve_guess xs ys None fb ft = Inr c \<Longrightarrow> fs_stderr c = None"
  by (auto simp: HillCurve_guess_def Let_def split: sum.splits if_splits)

lemma HillCurve_init_stderr_None:
  "HillCurve_init cf xs ys None fb ft lg = Inr c \<Longrightarrow> fs_stderr c = None"
  by (auto simp: HillCurve_init_def Let_def split: sum.splits if_splits
      dest: HillCurve_guess_stderr_None)

lemma stderr_of_all_None:
  "\<forall>r \<in> set idata. r_stderr r = None \<Longrightarrow> stderr_of idata = Inr None"
  by (simp add: stderr_of_def)

lemma getCurve_unweighted_inv:
  assumes "unweighted_inv self0 x" and "getCurve cf x s v r = (res, y)"
  shows "unweighted_inv self0 y"
  using assms(2)
proof (cases rule: getCurve_cases)
  case (hit ref)
  with assms(1) show ?thesis by simp
next
  case (fail e)
  with assms(1) show ?thesis by simp
next
  case (build se curve rs)
  have dfx: "df x = df self0" using assms(1) by (simp add: unweighted_inv_def)
  have old: "ref < length (heap x) \<and>
        ((\<forall>row \<in> set (idata_of (df self0) s' v' r'). r_stderr row = None)
          \<longrightarrow> fs_stderr (heap x ! ref) = None)"
    if "hillcurves x (s', v', r') = Some ref" for s' v' r' ref
    using assms(1) that unfolding unweighted_inv_def by blast
  have new: "fs_stderr curve = None"
    if "\<forall>row \<in> set (idata_of (df self0) s v r). r_stderr row = None"
  proof -
    from that dfx have "stderr_of (idata_of (df x) s v r) = Inr None"
      by (simp add: stderr_of_all_None)
    with build(4) have "se = None" by simp
    with build(5) show ?thesis by (auto dest: HillCurve_init_stderr_None)
  qed
  show ?thesis
    unfolding unweighted_inv_def
  proof (intro conjI allI impI)
    show "df y = df self0" using build(7) dfx by simp
  next
    fix s' v' r' ref
    assume h: "hillcurves y (s', v', r') = Some ref"
    show "ref < length (heap y)"
    proof (cases "(s', v', r') = (s, v, r)")
      case True
      with h build(7) show ?thesis by simp
    next
      case False
      with h build(7) have "hillcurves x (s', v', r') = Some ref"
        by (auto split: if_splits)
      from old [OF this] build(7) show ?thesis by simp
    qed
  next
    fix s' v' r' ref
    assume h: "hillcurves y (s', v', r') = Some ref"
      and n: "\<forall>row \<in> set (idata_of (df self0) s' v' r'). r_stderr row = None"
    show "fs_stderr (heap y ! ref) = None"
    proof (cases "(s', v', r') = (s, v, r)")
      case True
      with h build(7) have "ref = length (heap x)" by simp
      with build(7) have "heap y ! ref = curve" by simp
      with new n True show ?thesis by simp
    next
      case False
      with h build(7) have "hillcurves x (s', v', r') = Some ref"
        by (auto split: if_splits)
      from old [OF this] n have "ref < length (heap x)" "fs_stderr (heap x ! ref) = None"
        by simp_all
      with build(7) show ?thesis by (simp add: nth_append)
    qed
  qed
qed

lemma reachable_unweighted_inv:
  assumes "reachable a b" and "unweighted_inv self0 a"
  shows "unweighted_inv self0 b"
  using assms
proof (rule reachable_inv [where P = "unweighted_inv self0"])
  fix cf x s v r res y
  assume "unweighted_inv self0 x" and "getCurve cf x s v r = (res, y)"
  then show "unweighted_inv self0 y" by (rule getCurve_unweighted_inv)
next
  fix x t
  assume "unweighted_inv self0 x"
  then show "unweighted_inv self0 (x\<lparr>fitparams := t\<rparr>)" by (simp add: unweighted_inv_def)
qed

lemma unweighted_inv_init:
  "CurveFits_init args columns rows = Inr self0 \<Longrightarrow> unweighted_inv self0 self0"
  by (simp add: unweighted_inv_def CurveFits_init_fields)

lemma avg_df_replicate:
  "row \<in> set (avg_df rows) \<Longrightarrow> r_replicate row = ''average''"
  by (auto simp: avg_df_def avg_row_def)

lemma raw_rows_no_stderr:
  assumes "CurveFits_init args columns rows = Inr self0"
    and "row \<in> set (df self0)" and "r_replicate row \<noteq> ''average''"
  shows "r_stderr row = None"
  using assms(2,3) CurveFits_init_fields(4) [OF assms(1)]
  by (auto simp: raw_row_def dest: avg_df_replicate)

lemma check_rep1_distinct:
  "check_rep1 s v vd reps = Inr () \<Longrightarrow> r \<in> set reps \<Longrightarrow> distinct (rep_concs r vd)"
proof (induction reps)
  case Nil
  then show ?case by simp
next
  case (Cons rep1 rest)
  from Cons.prems(1) have len: "length (rep_concs rep1 vd) = card (set (rep_concs rep1 vd))"
    and rest: "check_rep1 s v vd rest = Inr ()"
    by (auto simp: Let_def split: if_splits sum.splits)
  from len have "distinct (rep_concs rep1 vd)" by (simp add: card_distinct)
  with Cons.IH [OF rest] Cons.prems(2) show ?case by auto
qed

lemma virus_loop_result:
  "virus_loop s sd vs reps = Inr reps' \<Longrightarrow>
     (\<forall>v \<in> set vs. ''average'' \<notin> set (unique (map r_replicate (virus_data_of v sd)))
        \<and> check_rep1 s v (virus_data_of v sd) (unique (map r_replicate (virus_data_of v sd)))
            = Inr ())
     \<and> (\<forall>s' v. reps' (s', v) =
           (if s' = s \<and> v \<in> set vs
            then Some (unique (map r_replicate (virus_data_of v sd)) @ [''average''])
            else reps (s', v)))"
proof (induction vs arbitrary: reps)
  case Nil
  then show ?case by simp
next
  case (Cons virus rest)
  let ?vr = "unique (map r_replicate (virus_data_of virus sd))"
  from Cons.prems have na: "''average'' \<notin> set ?vr"
    and chk: "check_rep1 s virus (virus_data_of virus sd) ?vr = Inr ()"
    and rec: "virus_loop s sd rest (reps((s, virus) \<mapsto> ?vr @ [''average''])) = Inr reps'"
    by (auto simp: Let_def split: if_splits sum.splits)
  from Cons.IH [OF rec] na chk show ?case
    by (auto simp: fun_upd_def)
qed

lemma serum_loop_result:
  "serum_loop rows ss vs reps = Inr (vs', reps') \<Longrightarrow>
     (\<forall>s \<in> set ss. \<forall>v \<in> set (serum_viruses_of rows s).
         ''average'' \<notin> set (virus_reps_of rows s v)
         \<and> check_rep1 s v (virus_data_of v (serum_data_of s rows)) (virus_reps_of rows s v)
             = Inr ())
     \<and> (\<forall>s. vs' s = (if s \<in> set ss then Some (serum_viruses_of rows s) else vs s))
     \<and> (\<forall>s v. reps' (s, v) =
           (if s \<in> set ss \<and> v \<in> set (serum_viruses_of rows s)
            then Some (virus_reps_of rows s v @ [''average''])
            else reps (s, v)))"
proof (induction ss arbitrary: vs reps)
  case Nil
  then show ?case by simp
next
  case (Cons serum rest)
  let ?sv = "serum_viruses_of rows serum"
  from Cons.prems obtain reps1 where
    vl: "virus_loop serum (serum_data_of serum rows) ?sv reps = Inr reps1"
    and rec: "serum_loop rows rest (vs(serum \<mapsto> ?sv)) reps1 = Inr (vs', reps')"
    by (auto simp: Let_def serum_viruses_of_def split: sum.splits)
  note a = virus_loop_result [OF vl, folded virus_reps_of_def]
  note b = Cons.IH [OF rec]
  show ?case
  proof (intro conjI ballI allI)
    fix s v assume "s \<in> set (serum # rest)" and "v \<in> set (serum_viruses_of rows s)"
    then show "''average'' \<notin> set (virus_reps_of rows s v)"
      using a b by auto
  next
    fix s v assume "s \<in> set (serum # rest)" and "v \<in> set (serum_viruses_of rows s)"
    then show "check_rep1 s v (virus_data_of v (serum_data_of s rows)) (virus_reps_of rows s v)
             = Inr ()"
      using a b by auto
  next
    fix s show "vs' s = (if s \<in> set (serum # rest) then Some (serum_viruses_of rows s) else vs s)"
      using b by auto
  next
    fix s v show "reps' (s, v) =
           (if s \<in> set (serum # rest) \<and> v \<in> set (serum_viruses_of rows s)
            then Some (virus_reps_of rows s v @ [''average''])
            else reps (s, v))"
      using a b by auto
  qed
qed

lemma CurveFits_init_indices:
  assumes "CurveFits_init args columns rows = Inr self0"
  shows "viruses self0 s =
           (if s \<in> set (sera self0) then Some (serum_viruses_of rows s) else None)"
    and "replicates self0 (s, v) =
           (if s \<in> set (sera self0) \<and> v \<in> set (serum_viruses_of rows s)
            then Some (virus_reps_of rows s v @ [''average'']) else None)"
    and "s \<in> set (sera self0) \<Longrightarrow> v \<in> set (serum_viruses_of rows s) \<Longrightarrow>
           ''average'' \<notin> set (virus_reps_of rows s v)
           \<and> check_rep1 s v (virus_data_of v (serum_data_of s rows)) (virus_reps_of rows s v)
               = Inr ()"
  using serum_loop_result [OF CurveFits_init_fields(6) [OF assms]]
    CurveFits_init_fields(5) [OF assms]
  by auto

lemma filter_distinct_key:
  "distinct (map f xs) \<Longrightarrow> length (filter (\<lambda>x. f x = c) xs) \<le> 1"
  by (induction xs) (auto simp: filter_empty_conv image_iff)

lemma sem_short: "length xs \<le> 1 \<Longrightarrow> sem xs = None"
  by (simp add: sem_def)

lemma single_replicate_groups:
  assumes init: "CurveFits_init args columns rows = Inr self0"
    and one: "replicates self0 (s, v) = Some [r1, ''average'']"
  shows "sem (group_of rows (s, v, c)) = None"
proof -
  let ?vd = "virus_data_of v (serum_data_of s rows)"
  from one CurveFits_init_indices(2) [OF init, of s v]
  have sv: "s \<in> set (sera self0)" "v \<in> set (serum_viruses_of rows s)"
    and vr: "virus_reps_of rows s v = [r1]"
    by (auto split: if_splits)
  from CurveFits_init_indices(3) [OF init sv] vr
  have "check_rep1 s v ?vd [r1] = Inr ()" by simp
  then have "distinct (rep_concs r1 ?vd)" by (rule check_rep1_distinct) simp
  then have d: "distinct (map r_conc (filter (\<lambda>r. r_replicate r = r1) ?vd))"
    by (simp add: rep_concs_def)
  have "set (map r_replicate ?vd) = {r1}"
    using vr set_unique [of "map r_replicate ?vd"] by (simp add: virus_reps_of_def)
  then have "\<forall>r \<in> set ?vd. r_replicate r = r1" by auto
  then have "filter (\<lambda>r. r_replicate r = r1) ?vd = ?vd" by simp
  with d have "distinct (map r_conc ?vd)" by simp
  then have "length (filter (\<lambda>r. r_conc r = c) ?vd) \<le> 1" by (rule filter_distinct_key)
  moreover have "filter (\<lambda>r. (r_serum r, r_virus r, r_conc r) = (s, v, c)) rows
      = filter (\<lambda>r. r_conc r = c) ?vd"
    by (auto simp: virus_data_of_def serum_data_of_def intro: filter_cong)
  ultimately show ?thesis by (simp add: group_of_def sem_short)
qed

lemma single_replicate_average_no_stderr:
  assumes init: "CurveFits_init args columns rows = Inr self0"
    and one: "replicates self0 (s, v) = Some [r1, ''average'']"
    and row: "row \<in> set (idata_of (df self0) s v ''average'')"
  shows "r_stderr row = None"
proof -
  from row CurveFits_init_fields(4) [OF init]
  have sv: "r_serum row = s" "r_virus row = v"
    and "row \<in> set (map raw_row rows) \<or> row \<in> set (avg_df rows)"
    by (auto simp: idata_of_def)
  from this(3) show ?thesis
  proof
    assume "row \<in> set (map raw_row rows)"
    then show ?thesis by (auto simp: raw_row_def)
  next
    assume "row \<in> set (avg_df rows)"
    then obtain k where k: "row = avg_row rows k" by (auto simp: avg_df_def)
    with sv have "k = (s, v, snd (snd k))" by (cases k) (simp add: avg_row_def)
    then have "sem (group_of rows k) = None"
      using single_replicate_groups [OF init one, of "snd (snd k)"] by simp
    with k show ?thesis by (simp add: avg_row_def)
  qed
qed

text \<open>
  C9. In an object made by the constructor, every row of the data whose replicate is
  not \<open>'average'\<close> has no standard error. Hence, in any object reached from it, a curve
  that \<open>getCurve\<close> returns for a replicate other than \<open>'average'\<close> has no
  \<open>fs_stderr\<close>: it was fitted unweighted. The same holds for the \<open>'average'\<close> curve of
  a serum and virus with a single replicate, whose averages have no standard error.
\<close>

theorem replicate_curves_fit_unweighted:
  assumes "CurveFits_init args columns rows = Inr self0"
    and "reachable self0 self"
    and "getCurve curve_fit self serum virus rep = (Inr ref, self')"
  shows "(\<forall>row \<in> set (df self0). r_replicate row \<noteq> ''average'' \<longrightarrow> r_stderr row = None)
    \<and> (rep \<noteq> ''average'' \<longrightarrow> fs_stderr (heap self' ! ref) = None)
    \<and> ((\<exists>r1. replicates self0 (serum, virus) = Some [r1, ''average'']) \<and> rep = ''average''
         \<longrightarrow> fs_stderr (heap self' ! ref) = None)"
proof -
  have inv: "unweighted_inv self0 self'"
    using assms by (blast intro: unweighted_inv_init reachable_unweighted_inv
        getCurve_unweighted_inv)
  have st: "hillcurves self' (serum, virus, rep) = Some ref"
    using assms(3) by (rule getCurve_stores)
  have key: "fs_stderr (heap self' ! ref) = None"
    if "\<forall>row \<in> set (idata_of (df self0) serum virus rep). r_stderr row = None"
    using inv st that unfolding unweighted_inv_def by blast
  have raw: "\<forall>row \<in> set (df self0). r_replicate row \<noteq> ''average'' \<longrightarrow> r_stderr row = None"
    using raw_rows_no_stderr [OF assms(1)] by blast
  have a: "fs_stderr (heap self' ! ref) = None" if "rep \<noteq> ''average''"
    using that raw by (intro key) (auto simp: idata_of_def)
  have b: "fs_stderr (heap self' ! ref) = None"
    if "replicates self0 (serum, virus) = Some [r1, ''average'']" "rep = ''average''" for r1
    using that single_replicate_average_no_stderr [OF assms(1) that(1)] by (intro key) auto
  from raw a b show ?thesis by blast
qed

section \<open>The parameter table\<close>

lemma fit_replicates_rows:
  "fit_replicates cf fmt s v n reps self d = (Inr d', self') \<Longrightarrow>
     \<exists>new. d' = d @ new \<and> map row_key new = map (\<lambda>r. (s, v, r)) reps
       \<and> (\<forall>row \<in> set new. p_nreplicates row =
             (if p_replicate row = ''average'' then Some n else None))"
proof (induction reps arbitrary: self d)
  case Nil
  then show ?case by simp
next
  case (Cons rep rest)
  obtain r1 s1 where g: "getCurve cf self s v rep = (r1, s1)"
    by (cases "getCurve cf self s v rep")
  from Cons.prems g obtain ref where r1: "r1 = Inr ref"
    by (cases r1) auto
  let ?c = "heap s1 ! ref"
  from Cons.prems g r1 obtain val b str where
    rec: "fit_replicates cf fmt s v n rest s1
            (d @ [\<lparr>p_serum = s, p_virus = v, p_replicate = rep,
                   p_nreplicates = (if rep = ''average'' then Some n else None),
                   p_ic50 = val, p_ic50_bound = b, p_ic50_str = str,
                   p_midpoint = midpoint ?c, p_slope = slope ?c,
                   p_top = top_val ?c, p_bottom = bottom ?c\<rparr>]) = (Inr d', self')"
    by (auto simp: Let_def split: sum.splits)
  from Cons.IH [OF rec] obtain new where
    new: "d' = (d @ [\<lparr>p_serum = s, p_virus = v, p_replicate = rep,
                   p_nreplicates = (if rep = ''average'' then Some n else None),
                   p_ic50 = val, p_ic50_bound = b, p_ic50_str = str,
                   p_midpoint = midpoint ?c, p_slope = slope ?c,
                   p_top = top_val ?c, p_bottom = bottom ?c\<rparr>]) @ new"
      "map row_key new = map (\<lambda>r. (s, v, r)) rest"
      "\<forall>row \<in> set new. p_nreplicates row =
             (if p_replicate row = ''average'' then Some n else None)"
    by blast
  let ?row = "\<lparr>p_serum = s, p_virus = v, p_replicate = rep,
                   p_nreplicates = (if rep = ''average'' then Some n else None),
                   p_ic50 = val, p_ic50_bound = b, p_ic50_str = str,
                   p_midpoint = midpoint ?c, p_slope = slope ?c,
                   p_top = top_val ?c, p_bottom = bottom ?c\<rparr>"
  show ?case
  proof (intro exI [of _ "?row # new"] conjI)
    show "d' = d @ ?row # new" using new(1) by simp
    show "map row_key (?row # new) = map (\<lambda>r. (s, v, r)) (rep # rest)"
      using new(2) by (simp add: row_key_def)
    show "\<forall>row \<in> set (?row # new). p_nreplicates row =
             (if p_replicate row = ''average'' then Some n else None)"
      using new(3) by simp
  qed
qed

lemma fit_replicates_replicates:
  "fit_replicates cf fmt s v n reps self d = (res, self') \<Longrightarrow>
     replicates self' = replicates self \<and> viruses self' = viruses self"
  by (erule fit_replicates_inv
      [where P = "\<lambda>x. replicates x = replicates self \<and> viruses x = viruses self", rotated 2])
    (auto dest: getCurve_frame)

lemma fit_viruses_replicates:
  "fit_viruses cf fmt s vs self d = (res, self') \<Longrightarrow>
     replicates self' = replicates self \<and> viruses self' = viruses self"
  by (erule fit_viruses_inv
      [where P = "\<lambda>x. replicates x = replicates self \<and> viruses x = viruses self", rotated 2])
    (auto dest: getCurve_frame)

lemma fit_sera_replicates:
  "fit_sera cf fmt ss self d = (res, self') \<Longrightarrow>
     replicates self' = replicates self \<and> viruses self' = viruses self"
  by (erule fit_sera_inv
      [where P = "\<lambda>x. replicates x = replicates self \<and> viruses x = viruses self", rotated 2])
    (auto dest: getCurve_frame)

lemma row_ok_cong: "replicates a = replicates b \<Longrightarrow> row_ok a = row_ok b"
  by (simp add: row_ok_def nreplicates_of_def fun_eq_iff)

lemma row_key_in_block:
  assumes "map row_key new = map (\<lambda>r. (s, v, r)) reps" and "row \<in> set new"
  shows "p_serum row = s \<and> p_virus row = v"
proof -
  from assms(2) have "row_key row \<in> set (map row_key new)" by simp
  with assms(1) have "row_key row \<in> set (map (\<lambda>r. (s, v, r)) reps)" by simp
  then show ?thesis by (auto simp: row_key_def)
qed

lemma fit_viruses_rows:
  "fit_viruses cf fmt s vs self d = (Inr d', self') \<Longrightarrow>
     \<exists>new. d' = d @ new
       \<and> map row_key new =
           concat (map (\<lambda>v. map (\<lambda>r. (s, v, r)) (the (replicates self (s, v)))) vs)
       \<and> (\<forall>row \<in> set new. row_ok self row)"
proof (induction vs arbitrary: self d)
  case Nil
  then show ?case by simp
next
  case (Cons virus rest)
  from Cons.prems obtain reps where reps: "replicates self (s, virus) = Some reps"
    by (cases "replicates self (s, virus)") auto
  let ?n = "length (filter (\<lambda>r. r \<noteq> ''average'') reps)"
  obtain r1 s1 where f: "fit_replicates cf fmt s virus ?n reps self d = (r1, s1)"
    by (cases "fit_replicates cf fmt s virus ?n reps self d")
  from Cons.prems reps f obtain d1 where r1: "r1 = Inr d1"
    and rec: "fit_viruses cf fmt s rest s1 d1 = (Inr d', self')"
    by (cases r1) (auto simp: Let_def split: if_splits)
  from fit_replicates_rows [OF f [unfolded r1]] obtain new1 where
    n1: "d1 = d @ new1" "map row_key new1 = map (\<lambda>r. (s, virus, r)) reps"
      "\<forall>row \<in> set new1. p_nreplicates row =
          (if p_replicate row = ''average'' then Some ?n else None)"
    by blast
  have same: "replicates s1 = replicates self"
    using fit_replicates_replicates [OF f] by simp
  from Cons.IH [OF rec] obtain new2 where
    n2: "d' = d1 @ new2"
      "map row_key new2 =
         concat (map (\<lambda>v. map (\<lambda>r. (s, v, r)) (the (replicates s1 (s, v)))) rest)"
      "\<forall>row \<in> set new2. row_ok s1 row"
    by blast
  have ok1: "row_ok self row" if "row \<in> set new1" for row
  proof -
    from row_key_in_block [OF n1(2) that] have "p_serum row = s" "p_virus row = virus"
      by simp_all
    with n1(3) that reps show ?thesis
      by (simp add: row_ok_def nreplicates_of_def)
  qed
  show ?case
  proof (intro exI [of _ "new1 @ new2"] conjI)
    show "d' = d @ new1 @ new2" using n1(1) n2(1) by simp
    show "map row_key (new1 @ new2) =
        concat (map (\<lambda>v. map (\<lambda>r. (s, v, r)) (the (replicates self (s, v)))) (virus # rest))"
      using n1(2) n2(2) reps same by simp
    show "\<forall>row \<in> set (new1 @ new2). row_ok self row"
      using ok1 n2(3) row_ok_cong [OF same] by auto
  qed
qed

lemma fit_sera_rows:
  "fit_sera cf fmt ss self d = (Inr d', self') \<Longrightarrow>
     \<exists>new. d' = d @ new
       \<and> map row_key new =
           concat (map (\<lambda>s. concat (map (\<lambda>v. map (\<lambda>r. (s, v, r))
                                              (the (replicates self (s, v))))
                                      (the (viruses self s)))) ss)
       \<and> (\<forall>row \<in> set new. row_ok self row)"
proof (induction ss arbitrary: self d)
  case Nil
  then show ?case by simp
next
  case (Cons serum rest)
  from Cons.prems obtain vs where vs: "viruses self serum = Some vs"
    by (cases "viruses self serum") auto
  obtain r1 s1 where f: "fit_viruses cf fmt serum vs self d = (r1, s1)"
    by (cases "fit_viruses cf fmt serum vs self d")
  from Cons.prems vs f obtain d1 where r1: "r1 = Inr d1"
    and rec: "fit_sera cf fmt rest s1 d1 = (Inr d', self')"
    by (cases r1) auto
  from fit_viruses_rows [OF f [unfolded r1]] obtain new1 where
    n1: "d1 = d @ new1"
      "map row_key new1 =
         concat (map (\<lambda>v. map (\<lambda>r. (serum, v, r)) (the (replicates self (serum, v)))) vs)"
      "\<forall>row \<in> set new1. row_ok self row"
    by blast
  have same: "replicates s1 = replicates self" "viruses s1 = viruses self"
    using fit_viruses_replicates [OF f] by simp_all
  from Cons.IH [OF rec] obtain new2 where
    n2: "d' = d1 @ new2"
      "map row_key new2 =
         concat (map (\<lambda>s. concat (map (\<lambda>v. map (\<lambda>r. (s, v, r))
                                              (the (replicates s1 (s, v))))
                                      (the (viruses s1 s)))) rest)"
      "\<forall>row \<in> set new2. row_ok s1 row"
    by blast
  show ?case
  proof (intro exI [of _ "new1 @ new2"] conjI)
    show "d' = d @ new1 @ new2" using n1(1) n2(1) by simp
    show "map row_key (new1 @ new2) =
        concat (map (\<lambda>s. concat (map (\<lambda>v. map (\<lambda>r. (s, v, r))
                                              (the (replicates self (s, v))))
                                      (the (viruses self s)))) (serum # rest))"
      using n1(2) n2(2) vs same by simp
    show "\<forall>row \<in> set (new1 @ new2). row_ok self row"
      using n1(3) n2(3) row_ok_cong [OF same(1)] by auto
  qed
qed

lemma reachable_fitparams:
  "reachable a b \<Longrightarrow> fitparams a = Some full \<Longrightarrow> fitparams b = Some full"
proof (induction rule: reachable.induct)
  case start
  then show ?case by simp
next
  case (after_getCurve self curve_fit serum virus rep res self')
  then show ?case using getCurve_frame(7) by metis
next
  case (after_fitParams self curve_fit fmt average_only res' self')
  from after_fitParams.hyps(2) show ?case
    by (cases rule: fitParams_cases) (use after_fitParams in auto)
qed

lemma fitParams_cached:
  "fitparams self = Some full \<Longrightarrow>
     fitParams cf fmt self ao = (Inr (if ao then average_rows full else full), self)"
  by (simp add: fitParams_def average_rows_def)

text \<open>
  A call of \<open>fitParams\<close> that returns, on an object that has no cached table, caches
  a table with exactly one row for every key of the object, \<open>'average'\<close> included, in
  the order of the indices; the replicate count of a row is present exactly when its
  replicate is \<open>'average'\<close>, and is then the number of replicates of that serum and
  virus. With \<open>average_only\<close> the call returns the rows of that table whose replicate
  is \<open>'average'\<close>, otherwise the table. Every later call on any object reached from
  there, whatever its \<open>average_only\<close> and whatever optimiser is at hand, returns the
  same table or its \<open>'average'\<close> rows and leaves the object as it is.
\<close>

lemma fitParams_returning_call_caches:
  assumes "fitparams self = None" and "fitParams cf fmt self ao = (Inr t, self')"
  shows "\<exists>full. fitparams self' = Some full
      \<and> map row_key full = all_keys self
      \<and> (\<forall>row \<in> set full. row_ok self row)
      \<and> t = (if ao then average_rows full else full)
      \<and> (\<forall>row. row \<in> set (average_rows full) \<longleftrightarrow> row \<in> set full \<and> p_replicate row = ''average'')
      \<and> (\<forall>self'' cf' fmt' ao'. reachable self' self'' \<longrightarrow>
            fitParams cf' fmt' self'' ao' =
              (Inr (if ao' then average_rows full else full), self''))"
  using assms(2)
proof (cases rule: fitParams_cases)
  case (cached table)
  with assms(1) show ?thesis by simp
next
  case (computed d s1)
  from fit_sera_rows [OF computed(3)] have keys: "map row_key d = all_keys self"
    and ok: "\<forall>row \<in> set d. row_ok self row"
    by (auto simp: all_keys_def)
  have fp: "fitparams self' = Some d" using computed(4) by simp
  have later: "fitParams cf' fmt' self'' ao' = (Inr (if ao' then average_rows d else d), self'')"
    if "reachable self' self''" for self'' cf' fmt' ao'
    using reachable_fitparams [OF that fp] by (rule fitParams_cached)
  show ?thesis
  proof (intro exI [of _ d] conjI allI impI)
    show "t = (if ao then average_rows d else d)"
      using computed(5) by (simp add: average_rows_def)
  qed (use fp keys ok later in \<open>auto simp: average_rows_def\<close>)
qed simp_all

section \<open>Mismatched replicates; the results on the sample data\<close>

lemma mismatched_concs:
  "rep_concs ''1'' mismatched_rows = [1]" "rep_concs ''2'' mismatched_rows = [2]"
  by (simp_all add: rep_concs_def mismatched_rows_def)

lemma mismatched_sera: "unique (map r_serum mismatched_rows) = [''s'']"
  by (simp add: mismatched_rows_def)

lemma mismatched_loop:
  "serum_loop mismatched_rows [''s''] Map.empty Map.empty =
     Inr ([''s'' \<mapsto> [''v'']], [(''s'', ''v'') \<mapsto> [''1'', ''2'', ''average'']])"
  by (simp add: mismatched_rows_def init_eval)

text \<open>
  C2. The claim: a data set in which two replicates of one serum and virus have
  different concentrations is refused. The constructor queries the concentrations of
  the second replicate with the name of the first, so it compares a list with itself:
  for replicate \<open>1\<close> measured at concentration 1 and replicate \<open>2\<close> at
  concentration 2 it succeeds and lists both replicates.
\<close>

theorem mismatched_replicates_accepted:
  "rep_concs ''1'' mismatched_rows = [1] \<and> rep_concs ''2'' mismatched_rows = [2]
   \<and> (case CurveFits_init sample_args sample_columns mismatched_rows of
         Inl e \<Rightarrow> False
       | Inr self \<Rightarrow> replicates self (''s'', ''v'') = Some [''1'', ''2'', ''average''])"
  unfolding CurveFits_init_def Let_def mismatched_sera mismatched_loop mismatched_concs
  by (simp add: sample_args_def sample_columns_def)

lemma sample_reach12: "reachable sample_cf1 sample_cf2"
  using reachable.start sample_get2 by (rule reachable.after_getCurve)

lemma sample_reach01: "reachable sample_cf sample_cf1"
  using reachable.start sample_get1 by (rule reachable.after_getCurve)

lemma sample_get3: "getCurve sample_fit sample_cf2 ''s'' ''v'' ''1'' = (Inr 0, sample_cf2)"
  by (simp add: getCurve_def sample_cf2_def)

theorem getCurve_returns_cached_witness:
  "CurveFits_init sample_args sample_columns sample_rows = Inr sample_cf
   \<and> reachable sample_cf sample_cf
   \<and> getCurve sample_fit sample_cf ''s'' ''v'' ''1'' = (Inr 0, sample_cf1)
   \<and> reachable sample_cf1 sample_cf2
   \<and> getCurve sample_fit sample_cf2 ''s'' ''v'' ''1'' = (Inr 0, sample_cf2)
   \<and> heap sample_cf2 ! 0 = heap sample_cf1 ! 0
   \<and> hillcurves sample_cf2 (''s'', ''v'', ''1'') = Some 0
   \<and> hillcurves sample_cf2 (''s'', ''v'', ''average'') = Some 1"
proof -
  note inst = getCurve_returns_cached [OF sample_init reachable.start sample_get1 sample_reach12]
  from inst have "getCurve sample_fit sample_cf2 ''s'' ''v'' ''1'' = (Inr 0, sample_cf2)"
    and "heap sample_cf2 ! 0 = heap sample_cf1 ! 0"
    by blast+
  moreover have "hillcurves sample_cf2 (''s'', ''v'', ''1'') = Some 0"
    and "hillcurves sample_cf2 (''s'', ''v'', ''average'') = Some 1"
    by (simp_all add: sample_cf2_def)
  ultimately show ?thesis
    using sample_init reachable.start sample_get1 sample_reach12 by blast
qed

theorem replicate_curves_fit_unweighted_witness:
  "CurveFits_init sample_args sample_columns sample_rows = Inr sample_cf
   \<and> reachable sample_cf sample_cf
   \<and> getCurve sample_fit sample_cf ''s'' ''v'' ''1'' = (Inr 0, sample_cf1)
   \<and> ''1'' \<noteq> ''average''
   \<and> fs_stderr (heap sample_cf1 ! 0) = None
   \<and> reachable sample_cf sample_cf1
   \<and> getCurve sample_fit sample_cf1 ''s'' ''v'' ''average'' = (Inr 1, sample_cf2)
   \<and> replicates sample_cf (''s'', ''v'') = Some [''1'', ''average'']
   \<and> fs_stderr (heap sample_cf2 ! 1) = None"
proof -
  have ne: "''1'' \<noteq> ''average''" by simp
  from replicate_curves_fit_unweighted [OF sample_init reachable.start sample_get1] ne
  have a: "fs_stderr (heap sample_cf1 ! 0) = None" by blast
  have r: "replicates sample_cf (''s'', ''v'') = Some [''1'', ''average'']"
    by (simp add: sample_cf_def)
  from replicate_curves_fit_unweighted [OF sample_init sample_reach01 sample_get2] r
  have b: "fs_stderr (heap sample_cf2 ! 1) = None" by blast
  show ?thesis
    using sample_init reachable.start sample_get1 ne a sample_reach01 sample_get2 r b
    by blast
qed

lemma sample_all_keys:
  "all_keys sample_cf = [(''s'', ''v'', ''1''), (''s'', ''v'', ''average'')]"
  by (simp add: all_keys_def sample_cf_def)

lemma sample_fitParams_cached:
  "fitparams sample_cf = None
   \<and> fitParams sample_fit sample_fmt sample_cf True =
       (Inr (drop 1 sample_table), sample_cf2\<lparr>fitparams := Some sample_table\<rparr>)
   \<and> map row_key sample_table = [(''s'', ''v'', ''1''), (''s'', ''v'', ''average'')]
   \<and> map p_nreplicates sample_table = [None, Some 1]
   \<and> average_rows sample_table = drop 1 sample_table
   \<and> fitParams sample_fit sample_fmt (sample_cf2\<lparr>fitparams := Some sample_table\<rparr>) False =
       (Inr sample_table, sample_cf2\<lparr>fitparams := Some sample_table\<rparr>)"
proof -
  let ?s = "sample_cf2\<lparr>fitparams := Some sample_table\<rparr>"
  have n: "fitparams sample_cf = None" by (simp add: sample_cf_def)
  from fitParams_returning_call_caches [OF n sample_params]
  obtain full where full: "fitparams ?s = Some full"
    and keys: "map row_key full = all_keys sample_cf"
    and later: "\<forall>self'' cf' fmt' ao'. reachable ?s self'' \<longrightarrow>
        fitParams cf' fmt' self'' ao' = (Inr (if ao' then average_rows full else full), self'')"
    by blast
  from full have eq: "full = sample_table" by simp
  from later reachable.start [of ?s]
  have "fitParams sample_fit sample_fmt ?s False = (Inr full, ?s)" by fastforce
  moreover have "map p_nreplicates sample_table = [None, Some 1]"
    and "average_rows sample_table = drop 1 sample_table"
    by (simp_all add: sample_table_def average_rows_def)
  ultimately show ?thesis
    using n sample_params keys eq sample_all_keys by simp
qed

subsection \<open>A data set on which \<open>fitParams\<close> raises\<close>

lemma below_group_keys: "group_keys below_rows = [(''s'', ''v'', 1), (''s'', ''v'', 2)]"
  by (simp add: group_keys_def below_rows_def)

lemma below_avg: "avg_df below_rows = drop 2 (df below_cf)"
  unfolding avg_df_def below_group_keys
  by (simp add: avg_row_def group_of_def below_rows_def mean_def sem_def below_cf_def)

lemma below_raw: "map raw_row below_rows = take 2 (df below_cf)"
  by (simp add: raw_row_def below_rows_def below_cf_def)

lemma below_sera: "unique (map r_serum below_rows) = [''s'']"
  by (simp add: below_rows_def)

lemma below_loop: "serum_loop below_rows [''s''] Map.empty Map.empty
   = Inr ([''s'' \<mapsto> [''v'']], [(''s'', ''v'') \<mapsto> [''1'', ''average'']])"
  by (simp add: below_rows_def init_eval)

lemma below_init: "CurveFits_init sample_args sample_columns below_rows = Inr below_cf"
proof -
  have "take 2 (df below_cf) @ drop 2 (df below_cf) = df below_cf" by simp
  then show ?thesis
    unfolding CurveFits_init_def Let_def below_sera below_loop below_avg below_raw
    by (simp add: sample_args_def sample_columns_def below_cf_def)
qed

lemma below_HillCurve:
  "HillCurve_init below_fit [1, 2] [1/3, 1/5] None (Number 0) (Number 1) True = Inr below_curve"
  by (simp add: HillCurve_init_def guess_eval func_vars_of_def below_fit_def setattr_curve_def
      below_curve_def is_plain_def)

lemma below_get1: "getCurve below_fit below_cf ''s'' ''v'' ''1'' = (Inr 0, below_cf1)"
  by (simp add: getCurve_def below_cf_def below_cf1_def idata_of_def stderr_of_def
      below_HillCurve)

lemma below_get1_again: "getCurve cf below_cf1 ''s'' ''v'' ''1'' = (Inr 0, below_cf1)"
  by (simp add: getCurve_def below_cf_def below_cf1_def)

lemma below_ic50:
  "ic50 below_curve ''bound'' = Inl (ValueError ''invalid `bound` bottom'')"
  by (simp add: ic50_eval below_curve_def)

lemma below_fields:
  "heap below_cf1 ! 0 = below_curve"
  "sera below_cf = [''s'']" "viruses below_cf ''s'' = Some [''v'']"
  "replicates below_cf (''s'', ''v'') = Some [''1'', ''average'']"
  "fitparams below_cf = None"
  "sera below_cf1 = [''s'']" "viruses below_cf1 ''s'' = Some [''v'']"
  "replicates below_cf1 (''s'', ''v'') = Some [''1'', ''average'']"
  "fitparams below_cf1 = None"
  by (simp_all add: below_cf_def below_cf1_def)

lemma below_fit_sera:
  "fit_sera below_fit sample_fmt (sera below_cf) below_cf [] =
     (Inl (ValueError ''invalid `bound` bottom''), below_cf1)"
  by (simp add: below_fields below_get1 below_ic50)

lemma below_fit_sera_again:
  "fit_sera cf fmt (sera below_cf1) below_cf1 [] =
     (Inl (ValueError ''invalid `bound` bottom''), below_cf1)"
  by (simp add: below_fields below_get1_again below_ic50)

text \<open>
  C7. The claim: the first call of \<open>fitParams\<close> builds one row for every key and caches
  the table, and every later call filters that table rather than recomputing. On valid
  data whose IC50 of 1/2 lies below the measured concentrations 1 and 2 the first call
  fits the curve of the first key and then raises the \<open>ValueError\<close> of
  \<open>ic50(method="bound")\<close>, the defect of C1: no row is returned and no table is cached.
  Every later call, with either value of \<open>average_only\<close>, therefore runs the loop over
  the keys again and raises again.
\<close>

theorem fitParams_raises_below_range:
  "CurveFits_init sample_args sample_columns below_rows = Inr below_cf
   \<and> fitParams below_fit sample_fmt below_cf True =
       (Inl (ValueError ''invalid `bound` bottom''), below_cf1)
   \<and> fitparams below_cf1 = None
   \<and> fitParams below_fit sample_fmt below_cf1 True =
       (Inl (ValueError ''invalid `bound` bottom''), below_cf1)
   \<and> fitParams below_fit sample_fmt below_cf1 False =
       (Inl (ValueError ''invalid `bound` bottom''), below_cf1)"
  unfolding fitParams_def below_fit_sera below_fit_sera_again
  by (simp add: below_init below_fields)

text \<open>
  Every curve held by an object reached from a constructed one has the data of a
  constructed curve; the properties of \<open>ic50\<close> above apply to it.
\<close>

lemma getCurve_heap_fitted:
  assumes "list_all fitted (heap x)" and "getCurve cf x s v r = (res, y)"
  shows "list_all fitted (heap y)"
  using assms(2)
proof (cases rule: getCurve_cases)
  case (build se curve rs)
  from build(5) have "fitted curve" by (rule HillCurve_init_fitted)
  with assms(1) build(7) show ?thesis by simp
qed (use assms(1) in simp_all)

lemma reachable_heap_fitted:
  assumes "CurveFits_init args columns rows = Inr self0" and "reachable self0 self"
  shows "list_all fitted (heap self)"
  using assms(2)
proof (rule reachable_inv [where P = "\<lambda>x. list_all fitted (heap x)"])
  show "list_all fitted (heap self0)"
    using CurveFits_init_fields(2) [OF assms(1)] by simp
next
  fix cf x s v r res y
  assume "list_all fitted (heap x)" and "getCurve cf x s v r = (res, y)"
  then show "list_all fitted (heap y)" by (rule getCurve_heap_fitted)
next
  fix x :: CurveFits and t
  assume "list_all fitted (heap x)"
  then show "list_all fitted (heap (x\<lparr>fitparams := t\<rparr>))" by simp
qed

end
